theory Spec2Isabelle
  imports Complex_Main
begin

section \<open>The seed function of the weather dashboard\<close>

text \<open>
  The development embeds \<^verbatim>\<open>supabase/functions/seed-weather-data/index.ts\<close> (the
  version with the climate profiles of the Indian cities) and the two fetch functions of
  \<^verbatim>\<open>src/components/WeatherDashboard.tsx\<close>.

  A JavaScript number is a double, kept here as the real number it stands for. An
  operation on numbers gives the exact result rounded to the nearest double (\<open>fl\<close>
  below); operations on loop counters and integer constants are exact and written
  without rounding. What the handler reads from its host is explicit: the successive
  results of \<^verbatim>\<open>Math.random()\<close> and of \<^verbatim>\<open>Date.now()\<close> are two sequences, and
  the handler counts how many values of each it has consumed.
\<close>

subsection \<open>Data model\<close>

type_synonym uuid = string

text \<open>The object literal \<^verbatim>\<open>{ min, max }\<close> of a climate profile.\<close>

record band =
  bmin :: real
  bmax :: real

record profile =
  baseTemp :: real
  tempRange :: real
  humidity :: band
  rainProbability :: real
  windSpeed :: band

text \<open>
  A station as the handler submits it, and the row of \<^verbatim>\<open>weather_stations\<close> that the
  insert returns for it, which has the \<^verbatim>\<open>id\<close> the database gave it.
\<close>

record new_station =
  station_name :: string
  location :: string
  latitude :: real
  longitude :: real

record station = new_station +
  station_id :: uuid

text \<open>
  The objects pushed to \<^verbatim>\<open>weatherData\<close>, \<^verbatim>\<open>predictions\<close> and
  \<^verbatim>\<open>alerts\<close>. A date is kept as its epoch milliseconds, of which
  \<^verbatim>\<open>toISOString()\<close> is the rendering.
\<close>

record observation =
  data_station_id :: uuid
  timestamp :: int
  temperature :: real
  data_humidity :: real
  precipitation :: real
  wind_speed :: real
  pressure :: real

record prediction =
  pred_station_id :: uuid
  prediction_date :: int
  predicted_temp :: real
  predicted_humidity :: real
  predicted_precipitation :: real
  confidence :: real

record alert =
  alert_station_id :: uuid
  alert_type :: string
  severity :: string
  message :: string
  is_active :: bool

subsection \<open>The host: random numbers, the clock, number formatting\<close>

record host =
  math_random :: "nat \<Rightarrow> real"
  date_now :: "nat \<Rightarrow> int"
  number_toString :: "real \<Rightarrow> string"

record world =
  random_calls :: nat
  now_calls :: nat

definition Math_random :: "host \<Rightarrow> world \<Rightarrow> real \<times> world" where
  "Math_random h w = (math_random h (random_calls w), w\<lparr>random_calls := random_calls w + 1\<rparr>)"

definition Date_now :: "host \<Rightarrow> world \<Rightarrow> int \<times> world" where
  "Date_now h w = (date_now h (now_calls w), w\<lparr>now_calls := now_calls w + 1\<rparr>)"

subsection \<open>Arithmetic on doubles\<close>

text \<open>
  Rounding to the nearest double, ties to the even significand: a number \<open>x\<close> with
  \<open>2 ^ e \<le> \<bar>x\<bar> < 2 ^ (e + 1)\<close> is rounded to a multiple of \<open>2 ^ (e - 52)\<close>, and the
  numbers below \<open>2 ^ - 1022\<close> to a multiple of \<open>2 ^ - 1074\<close>. (A result of \<open>2 ^ 1024\<close> or
  more would be an infinity; the handler is far from that.) \<^verbatim>\<open>Math.PI\<close> is the double
  nearest to \<open>pi\<close>, and \<^verbatim>\<open>Math.sin\<close> is taken to return the double nearest to the sine.
\<close>

definition rne :: "real \<Rightarrow> int" where
  "rne y = (let n = \<lfloor>y\<rfloor> in
     if y - of_int n < 1 / 2 then n
     else if 1 / 2 < y - of_int n then n + 1
     else if even n then n else n + 1)"

definition binade :: "real \<Rightarrow> int" where
  "binade x = max (- 1022) \<lfloor>log 2 \<bar>x\<bar>\<rfloor>"

definition ulp :: "real \<Rightarrow> real" where
  "ulp x = 2 powr of_int (binade x - 52)"

definition fl :: "real \<Rightarrow> real" where
  "fl x = (if x = 0 then 0 else of_int (rne (x / ulp x)) * ulp x)"

definition Math_PI :: real where
  "Math_PI = fl pi"

definition Math_sin :: "real \<Rightarrow> real" where
  "Math_sin x = fl (sin x)"

text \<open>
  \<^verbatim>\<open>Number.prototype.toFixed(d)\<close>: the sign is split off, the magnitude is scaled by
  \<open>10 ^ d\<close> and rounded to the nearest integer, the larger one on a tie; the digits are
  padded with zeros to at least \<open>d + 1\<close> and the point is put before the last \<open>d\<close>.
  (Magnitudes from \<open>10 ^ 21\<close> on are printed in another format; the handler is far
  from them.) \<open>Number_toFixed x d\<close> is the decimal number that this string denotes; it
  is the value that a row hands to its \<^verbatim>\<open>DECIMAL\<close> column.
\<close>

definition toFixed_scaled :: "real \<Rightarrow> nat \<Rightarrow> nat" where
  "toFixed_scaled x d = nat \<lfloor>\<bar>x\<bar> * 10 ^ d + 1 / 2\<rfloor>"

definition digit_char :: "nat \<Rightarrow> char" where
  "digit_char n = ''0123456789'' ! (n mod 10)"

fun decimal :: "nat \<Rightarrow> string" where
  "decimal n = (if n < 10 then [digit_char n] else decimal (n div 10) @ [digit_char (n mod 10)])"

declare decimal.simps [simp del]

definition toFixed :: "real \<Rightarrow> nat \<Rightarrow> string" where
  "toFixed x d =
     (let m = decimal (toFixed_scaled x d);
          m = (if length m \<le> d then replicate (d + 1 - length m) (CHR ''0'') @ m else m);
          k = length m - d
      in (if x < 0 then ''-'' else '''') @ take k m @ (if d = 0 then '''' else ''.'' @ drop k m))"

definition Number_toFixed :: "real \<Rightarrow> nat \<Rightarrow> real" where
  "Number_toFixed x d = (if x < 0 then - 1 else 1) * real (toFixed_scaled x d) / 10 ^ d"

subsection \<open>The climate profiles\<close>

text \<open>The table of the handler; a rain probability is the double of its literal.\<close>

definition Mumbai :: profile where
  "Mumbai = \<lparr>baseTemp = 30, tempRange = 5, humidity = \<lparr>bmin = 65, bmax = 85\<rparr>,
     rainProbability = fl (25 / 100), windSpeed = \<lparr>bmin = 10, bmax = 35\<rparr>\<rparr>"

definition Pune :: profile where
  "Pune = \<lparr>baseTemp = 28, tempRange = 7, humidity = \<lparr>bmin = 45, bmax = 70\<rparr>,
     rainProbability = fl (15 / 100), windSpeed = \<lparr>bmin = 8, bmax = 25\<rparr>\<rparr>"

definition Alandi :: profile where
  "Alandi = \<lparr>baseTemp = 27, tempRange = 6, humidity = \<lparr>bmin = 50, bmax = 75\<rparr>,
     rainProbability = fl (18 / 100), windSpeed = \<lparr>bmin = 7, bmax = 22\<rparr>\<rparr>"

definition Sangamner :: profile where
  "Sangamner = \<lparr>baseTemp = 29, tempRange = 8, humidity = \<lparr>bmin = 40, bmax = 65\<rparr>,
     rainProbability = fl (20 / 100), windSpeed = \<lparr>bmin = 12, bmax = 30\<rparr>\<rparr>"

definition Nagpur :: profile where
  "Nagpur = \<lparr>baseTemp = 32, tempRange = 9, humidity = \<lparr>bmin = 35, bmax = 60\<rparr>,
     rainProbability = fl (12 / 100), windSpeed = \<lparr>bmin = 5, bmax = 20\<rparr>\<rparr>"

definition climateProfiles :: "(string \<times> profile) list" where
  "climateProfiles =
     [(''Mumbai'', Mumbai), (''Pune'', Pune), (''Alandi'', Alandi),
      (''Sangamner'', Sangamner), (''Nagpur'', Nagpur)]"

text \<open>
  \<^verbatim>\<open>climateProfiles[station.name] || climateProfiles["Pune"]\<close>, on the keys the
  object literal defines. A name that \<^verbatim>\<open>Object.prototype\<close> defines finds the inherited
  member instead: it is truthy, so that the profile of Pune is not taken, and it has no
  \<^verbatim>\<open>humidity\<close>, so that the first row of such a station throws a
  \<^verbatim>\<open>TypeError\<close> in reading \<^verbatim>\<open>profile.humidity.min\<close>. The handler below answers a
  reply with such a name by this error, and runs the loop on other names only.
\<close>

definition inherited_keys :: "string list" where
  "inherited_keys =
     [''constructor'', ''__defineGetter__'', ''__defineSetter__'', ''hasOwnProperty'',
      ''__lookupGetter__'', ''__lookupSetter__'', ''isPrototypeOf'', ''propertyIsEnumerable'',
      ''toString'', ''valueOf'', ''__proto__'', ''toLocaleString'']"

definition profile_of :: "string \<Rightarrow> profile" where
  "profile_of name = (case map_of climateProfiles name of Some p \<Rightarrow> p | None \<Rightarrow> Pune)"

subsection \<open>Historical observations\<close>

text \<open>\<^verbatim>\<open>Math.sin((hour - 6) / 24 * Math.PI * 2)\<close>, the same in both loop nests.\<close>

definition hourFactor :: "int \<Rightarrow> real" where
  "hourFactor hour = Math_sin (fl (fl (fl (real_of_int (hour - 6) / 24) * Math_PI) * 2))"

text \<open>The body of the hour loop: one row of \<^verbatim>\<open>weatherData\<close>.\<close>

definition weather_row :: "host \<Rightarrow> profile \<Rightarrow> uuid \<Rightarrow> int \<Rightarrow> int \<Rightarrow> world \<Rightarrow> observation \<times> world" where
  "weather_row h p sid day hour w0 =
     (let (now, w1) = Date_now h w0;
          ts = now - (day * 24 + (23 - hour)) * 3600000;
          hf = hourFactor hour;
          (r1, w2) = Math_random h w1;
          temp = fl (fl (baseTemp p + fl (hf * tempRange p)) + fl (fl (r1 - 1 / 2) * 2));
          humidityBase = fl (bmin (humidity p)
             + fl (fl (bmax (humidity p) - bmin (humidity p)) * fl (1 - fl (fl (hf + 1) / 2))));
          (r2, w3) = Math_random h w2;
          hum = fl (humidityBase + fl (fl (r2 - 1 / 2) * 10));
          (r3, w4) = Math_random h w3;
          (precip, w5) =
             (if r3 < rainProbability p
              then (let (r4, w) = Math_random h w4 in (fl (fl (r4 * 15) + 2), w))
              else (0, w4));
          (r5, w6) = Math_random h w5;
          windBase = fl (bmin (windSpeed p)
             + fl (fl (bmax (windSpeed p) - bmin (windSpeed p)) * r5));
          (r6, w7) = Math_random h w6;
          wind = max (fl (windBase + fl (fl (r6 - 1 / 2) * 5))) 0;
          (r7, w8) = Math_random h w7;
          pres = fl (fl (1010 + fl (Math_sin (fl (fl (real_of_int day / 7) * Math_PI)) * 8))
             + fl (fl (r7 - 1 / 2) * 5))
      in (\<lparr>data_station_id = sid,
           timestamp = ts,
           temperature = Number_toFixed temp 2,
           data_humidity = Number_toFixed (max 20 (min 95 hum)) 2,
           precipitation = Number_toFixed precip 2,
           wind_speed = Number_toFixed wind 2,
           pressure = Number_toFixed pres 2\<rparr>, w8))"

text \<open>\<^verbatim>\<open>for (let hour = 0; hour < 24; hour++)\<close>\<close>

function hour_loop ::
  "host \<Rightarrow> profile \<Rightarrow> uuid \<Rightarrow> int \<Rightarrow> int \<Rightarrow> observation list \<times> world \<Rightarrow> observation list \<times> world" where
  "hour_loop h p sid day hour (weatherData, w) =
     (if hour < 24
      then (let (row, w') = weather_row h p sid day hour w
            in hour_loop h p sid day (hour + 1) (weatherData @ [row], w'))
      else (weatherData, w))"
  by pat_completeness auto
termination
  by (relation "measure (\<lambda>(h, p, sid, day, hour, s). nat (24 - hour))") auto

declare hour_loop.simps [simp del]

text \<open>\<^verbatim>\<open>for (let day = 7; day >= 0; day--)\<close>\<close>

function day_loop ::
  "host \<Rightarrow> profile \<Rightarrow> uuid \<Rightarrow> int \<Rightarrow> observation list \<times> world \<Rightarrow> observation list \<times> world" where
  "day_loop h p sid day s =
     (if day \<ge> 0
      then day_loop h p sid (day - 1) (hour_loop h p sid day 0 s)
      else s)"
  by pat_completeness auto
termination
  by (relation "measure (\<lambda>(h, p, sid, day, s). nat (day + 1))") auto

declare day_loop.simps [simp del]

subsection \<open>Forward predictions\<close>

text \<open>The body of the inner loop: one row of \<^verbatim>\<open>predictions\<close>.\<close>

definition prediction_row :: "host \<Rightarrow> profile \<Rightarrow> uuid \<Rightarrow> int \<Rightarrow> int \<Rightarrow> world \<Rightarrow> prediction \<times> world" where
  "prediction_row h p sid day hour w0 =
     (let (now, w1) = Date_now h w0;
          predDate = now + (day * 24 + hour) * 3600000;
          trendFactor = fl (real_of_int day * (1 / 2));
          hf = hourFactor hour;
          predictedTemp = fl (fl (baseTemp p + fl (hf * tempRange p)) + trendFactor);
          humidityBase = fl (bmin (humidity p)
             + fl (fl (bmax (humidity p) - bmin (humidity p)) * fl (1 - fl (fl (hf + 1) / 2))));
          (r1, w2) = Math_random h w1;
          predictedHumidity = fl (humidityBase + fl (fl (r1 - 1 / 2) * 8));
          (r2, w3) = Math_random h w2;
          (predictedPrecipitation, w4) =
             (if r2 < fl (rainProbability p * fl (8 / 10))
              then (let (r3, w) = Math_random h w3 in (fl (fl (r3 * 8) + 1), w))
              else (0, w3));
          (r4, w5) = Math_random h w4;
          conf = fl (95 - real_of_int day * 3 + fl (fl (r4 - 1 / 2) * 4))
      in (\<lparr>pred_station_id = sid,
           prediction_date = predDate,
           predicted_temp = Number_toFixed predictedTemp 2,
           predicted_humidity = Number_toFixed (max 20 (min 95 predictedHumidity)) 2,
           predicted_precipitation = Number_toFixed predictedPrecipitation 2,
           confidence = Number_toFixed (max 75 (min 98 conf)) 2\<rparr>, w5))"

text \<open>\<^verbatim>\<open>for (let hour = 0; hour < 24; hour += 6)\<close>\<close>

function pred_hour_loop ::
  "host \<Rightarrow> profile \<Rightarrow> uuid \<Rightarrow> int \<Rightarrow> int \<Rightarrow> prediction list \<times> world \<Rightarrow> prediction list \<times> world" where
  "pred_hour_loop h p sid day hour (predictions, w) =
     (if hour < 24
      then (let (row, w') = prediction_row h p sid day hour w
            in pred_hour_loop h p sid day (hour + 6) (predictions @ [row], w'))
      else (predictions, w))"
  by pat_completeness auto
termination
  by (relation "measure (\<lambda>(h, p, sid, day, hour, s). nat (24 - hour))") auto

declare pred_hour_loop.simps [simp del]

text \<open>\<^verbatim>\<open>for (let day = 0; day < 5; day++)\<close>\<close>

function pred_day_loop ::
  "host \<Rightarrow> profile \<Rightarrow> uuid \<Rightarrow> int \<Rightarrow> prediction list \<times> world \<Rightarrow> prediction list \<times> world" where
  "pred_day_loop h p sid day s =
     (if day < 5
      then pred_day_loop h p sid (day + 1) (pred_hour_loop h p sid day 0 s)
      else s)"
  by pat_completeness auto
termination
  by (relation "measure (\<lambda>(h, p, sid, day, s). nat (5 - day))") auto

declare pred_day_loop.simps [simp del]

subsection \<open>Alerts\<close>

text \<open>
  The object literals that the four alert branches push, then the branches of one
  station. In the heat-wave message the two characters after the temperature are the
  code units \<open>0xC2\<close> and \<open>0xB0\<close> of the source text. The last condition is
  \<^verbatim>\<open>profile.humidity.max > 75 && Math.random() > 0.5\<close>: the random number is drawn
  only when the first conjunct holds.
\<close>

definition heat_wave_warning :: "profile \<Rightarrow> uuid \<Rightarrow> alert" where
  "heat_wave_warning p sid =
     (let avgTemp = baseTemp p
      in \<lparr>alert_station_id = sid,
          alert_type = ''Heat Wave Warning'',
          severity = (if avgTemp > 42 then ''extreme'' else ''high''),
          message = ''Heat wave conditions expected. Temperature may reach ''
            @ toFixed (fl (avgTemp + 3)) 1 @ [CHR 0xC2, CHR 0xB0]
            @ ''C. Stay hydrated and avoid direct sunlight.'',
          is_active = True\<rparr>)"

definition heavy_rainfall_alert :: "uuid \<Rightarrow> alert" where
  "heavy_rainfall_alert sid =
     \<lparr>alert_station_id = sid,
      alert_type = ''Heavy Rainfall Alert'',
      severity = ''medium'',
      message = ''Heavy rainfall expected. Possibility of waterlogging in low-lying areas. Take necessary precautions.'',
      is_active = True\<rparr>"

definition strong_wind_advisory :: "host \<Rightarrow> profile \<Rightarrow> uuid \<Rightarrow> alert" where
  "strong_wind_advisory h p sid =
     \<lparr>alert_station_id = sid,
      alert_type = ''Strong Wind Advisory'',
      severity = ''medium'',
      message = ''Strong winds expected with speeds up to ''
        @ number_toString h (bmax (windSpeed p)) @ '' km/h. Secure loose objects.'',
      is_active = True\<rparr>"

definition high_humidity_alert :: "host \<Rightarrow> profile \<Rightarrow> uuid \<Rightarrow> alert" where
  "high_humidity_alert h p sid =
     \<lparr>alert_station_id = sid,
      alert_type = ''High Humidity Alert'',
      severity = ''low'',
      message = ''High humidity levels expected (''
        @ number_toString h (bmax (humidity p))
        @ ''%). Uncomfortable weather conditions likely.'',
      is_active = True\<rparr>"

definition station_alerts :: "host \<Rightarrow> profile \<Rightarrow> uuid \<Rightarrow> alert list \<times> world \<Rightarrow> alert list \<times> world" where
  "station_alerts h p sid s =
     (let (alerts, w) = s;
          avgTemp = baseTemp p;
          isHeatWave = avgTemp > 38;
          isHeavyRain = rainProbability p > fl (22 / 100);
          isHighWind = bmax (windSpeed p) > 30;
          alerts = (if isHeatWave then alerts @ [heat_wave_warning p sid] else alerts);
          alerts = (if isHeavyRain then alerts @ [heavy_rainfall_alert sid] else alerts);
          alerts = (if isHighWind then alerts @ [strong_wind_advisory h p sid] else alerts);
          (humid, w) = (if bmax (humidity p) > 75
            then (let (r, w') = Math_random h w in (r > 1 / 2, w'))
            else (False, w));
          alerts = (if humid then alerts @ [high_humidity_alert h p sid] else alerts)
      in (alerts, w))"

subsection \<open>The loop over the stations\<close>

text \<open>The three arrays that the loop fills, and the state of the host.\<close>

record seed_data =
  weatherData :: "observation list"
  predictions :: "prediction list"
  alerts :: "alert list"
  host_state :: world

text \<open>The body of \<^verbatim>\<open>for (const station of stationsData)\<close>.\<close>

definition process_station :: "host \<Rightarrow> station \<Rightarrow> seed_data \<Rightarrow> seed_data" where
  "process_station h st s =
     (let p = profile_of (station_name st);
          (wd, w1) = day_loop h p (station_id st) 7 (weatherData s, host_state s);
          (pr, w2) = pred_day_loop h p (station_id st) 0 (predictions s, w1);
          (al, w3) = station_alerts h p (station_id st) (alerts s, w2)
      in \<lparr>weatherData = wd, predictions = pr, alerts = al, host_state = w3\<rparr>)"

fun station_loop :: "host \<Rightarrow> station list \<Rightarrow> seed_data \<Rightarrow> seed_data" where
  "station_loop h [] s = s"
| "station_loop h (st # stationsData) s = station_loop h stationsData (process_station h st s)"

text \<open>
  The three arrays are empty before the loop; no random number and no clock value has
  been read yet.
\<close>

definition generate :: "host \<Rightarrow> station list \<Rightarrow> seed_data" where
  "generate h stationsData =
     station_loop h stationsData
       \<lparr>weatherData = [], predictions = [], alerts = [],
        host_state = \<lparr>random_calls = 0, now_calls = 0\<rparr>\<rparr>"

subsection \<open>The handler and its requests to the database\<close>

datatype table = weather_alerts | weather_predictions | weather_data | weather_stations

text \<open>\<^verbatim>\<open>supabase.from(t).delete().neq('id', v)\<close>\<close>

datatype delete_request = Delete_neq_id table uuid

datatype request =
    Delete delete_request
  | Insert_stations "new_station list"
  | Insert_weather_data "observation list"
  | Insert_predictions "prediction list"
  | Insert_alerts "alert list"

text \<open>
  What a request of the client resolves to: \<^verbatim>\<open>{ data, error }\<close>. The client does not
  throw; a thrown value that is an \<^verbatim>\<open>Error\<close> carries a message.
\<close>

datatype error = Error string | Not_an_Error

record 'a reply =
  reply_data :: "'a option"
  reply_error :: "error option"

record replies =
  stations_reply :: "station list reply"
  data_reply :: "unit reply"
  pred_reply :: "unit reply"
  alert_reply :: "unit reply"

datatype body = Null_body | Success_body nat nat nat nat | Error_body string

datatype response = Response nat body

record outcome =
  requests :: "request list"
  console :: "(string \<times> error) list"
  result :: response

definition nil_uuid :: uuid where
  "nil_uuid = ''00000000-0000-0000-0000-000000000000''"

definition seed_stations :: "new_station list" where
  "seed_stations =
     [\<lparr>station_name = ''Mumbai'', location = ''Maharashtra, Western India'',
        latitude = 190760 / 10000, longitude = 728777 / 10000\<rparr>,
      \<lparr>station_name = ''Pune'', location = ''Maharashtra, Western India'',
        latitude = 185204 / 10000, longitude = 738567 / 10000\<rparr>,
      \<lparr>station_name = ''Alandi'', location = ''Maharashtra, Western India'',
        latitude = 186776 / 10000, longitude = 738987 / 10000\<rparr>,
      \<lparr>station_name = ''Sangamner'', location = ''Maharashtra, Central India'',
        latitude = 195673 / 10000, longitude = 742058 / 10000\<rparr>,
      \<lparr>station_name = ''Nagpur'', location = ''Maharashtra, Central India'',
        latitude = 211458 / 10000, longitude = 790882 / 10000\<rparr>]"

text \<open>The \<^verbatim>\<open>catch\<close> block: the error is logged and answered with status 500.\<close>

definition caught :: "request list \<Rightarrow> error \<Rightarrow> outcome" where
  "caught rs e =
     \<lparr>requests = rs,
      console = [(''Error seeding weather data:'', e)],
      result = Response 500
        (Error_body (case e of Error m \<Rightarrow> m | Not_an_Error \<Rightarrow> ''Unknown error occurred''))\<rparr>"

text \<open>The four deletes at the start of the handler; their results are not read.\<close>

definition clear_requests :: "request list" where
  "clear_requests =
     [Delete (Delete_neq_id weather_alerts nil_uuid),
      Delete (Delete_neq_id weather_predictions nil_uuid),
      Delete (Delete_neq_id weather_data nil_uuid),
      Delete (Delete_neq_id weather_stations nil_uuid)]"

text \<open>The three inserts after the loop, each followed by the check of its error.\<close>

definition insert_all :: "replies \<Rightarrow> request list \<Rightarrow> nat \<Rightarrow> seed_data \<Rightarrow> outcome" where
  "insert_all rp rs n s =
     (let rs = rs @ [Insert_weather_data (weatherData s)]
      in case reply_error (data_reply rp) of
           Some e \<Rightarrow> caught rs e
         | None \<Rightarrow>
             (let rs = rs @ [Insert_predictions (predictions s)]
              in case reply_error (pred_reply rp) of
                   Some e \<Rightarrow> caught rs e
                 | None \<Rightarrow>
                     (let rs = (if length (alerts s) > 0 then rs @ [Insert_alerts (alerts s)] else rs)
                      in case (if length (alerts s) > 0 then reply_error (alert_reply rp) else None) of
                           Some e \<Rightarrow> caught rs e
                         | None \<Rightarrow>
                             \<lparr>requests = rs, console = [],
                              result = Response 200
                                (Success_body n (length (weatherData s))
                                   (length (predictions s)) (length (alerts s)))\<rparr>)))"

text \<open>
  The seed operation: the \<^verbatim>\<open>try\<close> block of the handler, for a database client that
  could be created and the replies the client gives to the requests whose result the
  handler reads. Iterating over a \<^verbatim>\<open>null\<close> \<^verbatim>\<open>stationsData\<close> throws a
  \<^verbatim>\<open>TypeError\<close>, and so does the loop on a station name that \<^verbatim>\<open>Object.prototype\<close>
  defines; what the loop had pushed until then is dropped with the arrays.
\<close>

definition seed_operation :: "host \<Rightarrow> replies \<Rightarrow> outcome" where
  "seed_operation h rp =
     (let rs = clear_requests @ [Insert_stations seed_stations]
      in case reply_error (stations_reply rp) of
           Some e \<Rightarrow> caught rs e
         | None \<Rightarrow>
             (case reply_data (stations_reply rp) of
                None \<Rightarrow> caught rs (Error ''stationsData is not iterable'')
              | Some stationsData \<Rightarrow>
                  if list_ex (\<lambda>st. station_name st \<in> set inherited_keys) stationsData
                  then caught rs (Error (''Cannot read properties of undefined (reading ''
                    @ [CHR 0x27] @ ''min'' @ [CHR 0x27] @ '')''))
                  else insert_all rp rs (length stationsData) (generate h stationsData)))"

text \<open>
  The handler of \<^verbatim>\<open>serve\<close>: the preflight request of a browser is answered at once,
  any other request runs the seed operation.
\<close>

definition seed_handler :: "host \<Rightarrow> replies \<Rightarrow> string \<Rightarrow> outcome" where
  "seed_handler h rp method =
     (if method = ''OPTIONS''
      then \<lparr>requests = [], console = [], result = Response 200 Null_body\<rparr>
      else seed_operation h rp)"

subsection \<open>What a delete request does to the tables\<close>

text \<open>
  The tables of the migration, with the columns the delete requests depend on: each row
  has an \<^verbatim>\<open>id\<close>, and each row of the three child tables a \<^verbatim>\<open>station_id\<close>
  that references \<^verbatim>\<open>weather_stations(id)\<close> with \<^verbatim>\<open>ON DELETE CASCADE\<close>.
\<close>

record child_row =
  row_id :: uuid
  row_station_id :: uuid

record database =
  stations_tbl :: "station list"
  data_tbl :: "child_row list"
  predictions_tbl :: "child_row list"
  alerts_tbl :: "child_row list"

text \<open>
  The \<^verbatim>\<open>id\<close> of a row is the column default \<^verbatim>\<open>gen_random_uuid()\<close>: no insert of the
  repository passes an id. A random UUID has version 4 and is never the nil UUID.
\<close>

definition generated_ids :: "database \<Rightarrow> bool" where
  "generated_ids db =
     (list_all (\<lambda>s. station_id s \<noteq> nil_uuid) (stations_tbl db) \<and>
      list_all (\<lambda>r. row_id r \<noteq> nil_uuid) (data_tbl db) \<and>
      list_all (\<lambda>r. row_id r \<noteq> nil_uuid) (predictions_tbl db) \<and>
      list_all (\<lambda>r. row_id r \<noteq> nil_uuid) (alerts_tbl db))"

text \<open>
  \<^verbatim>\<open>DELETE FROM t WHERE id <> v\<close>: the rows whose \<^verbatim>\<open>id\<close> differs from \<open>v\<close> go,
  and with a station the child rows that reference it.
\<close>

definition cascade :: "uuid list \<Rightarrow> child_row list \<Rightarrow> child_row list" where
  "cascade gone rows = filter (\<lambda>r. row_station_id r \<notin> set gone) rows"

fun perform_delete :: "delete_request \<Rightarrow> database \<Rightarrow> database" where
  "perform_delete (Delete_neq_id weather_alerts v) db =
     db\<lparr>alerts_tbl := filter (\<lambda>r. \<not> row_id r \<noteq> v) (alerts_tbl db)\<rparr>"
| "perform_delete (Delete_neq_id weather_predictions v) db =
     db\<lparr>predictions_tbl := filter (\<lambda>r. \<not> row_id r \<noteq> v) (predictions_tbl db)\<rparr>"
| "perform_delete (Delete_neq_id weather_data v) db =
     db\<lparr>data_tbl := filter (\<lambda>r. \<not> row_id r \<noteq> v) (data_tbl db)\<rparr>"
| "perform_delete (Delete_neq_id weather_stations v) db =
     (let gone = map station_id (filter (\<lambda>s. station_id s \<noteq> v) (stations_tbl db))
      in \<lparr>stations_tbl = filter (\<lambda>s. \<not> station_id s \<noteq> v) (stations_tbl db),
          data_tbl = cascade gone (data_tbl db),
          predictions_tbl = cascade gone (predictions_tbl db),
          alerts_tbl = cascade gone (alerts_tbl db)\<rparr>)"

text \<open>The delete requests at the head of a request list, performed in order.\<close>

fun leading_deletes :: "request list \<Rightarrow> delete_request list" where
  "leading_deletes (Delete d # rs) = d # leading_deletes rs"
| "leading_deletes rs = []"

fun perform_deletes :: "delete_request list \<Rightarrow> database \<Rightarrow> database" where
  "perform_deletes [] db = db"
| "perform_deletes (d # ds) db = perform_deletes ds (perform_delete d db)"

section \<open>The fetch functions of the dashboard\<close>

text \<open>
  The state of the \<^verbatim>\<open>WeatherDashboard\<close> component, with what it has written to the
  console and the toasts it has shown. A fetch is given the \<^verbatim>\<open>{ data, error }\<close> its
  query resolves to.
\<close>

record dashboard =
  stations :: "station list"
  selectedStation :: uuid
  currentWeather :: "observation option"
  loading :: bool
  seeding :: bool
  console_errors :: "(string \<times> error) list"
  toasts :: "string list"

definition loadStations :: "station list reply \<Rightarrow> dashboard \<Rightarrow> dashboard" where
  "loadStations r d =
     (let d = (case reply_error r of
                 Some e \<Rightarrow>
                   d\<lparr>console_errors := console_errors d @ [(''Error loading stations:'', e)],
                     toasts := toasts d @ [''Failed to load weather stations'']\<rparr>
               | None \<Rightarrow>
                   (let d = d\<lparr>stations := (case reply_data r of Some rows \<Rightarrow> rows | None \<Rightarrow> [])\<rparr>
                    in case reply_data r of
                         Some (row # rows) \<Rightarrow> d\<lparr>selectedStation := station_id row\<rparr>
                       | _ \<Rightarrow> d))
      in d\<lparr>loading := False\<rparr>)"

definition loadCurrentWeather :: "observation reply \<Rightarrow> dashboard \<Rightarrow> dashboard" where
  "loadCurrentWeather r d =
     (case reply_error r of
        Some e \<Rightarrow> d\<lparr>console_errors := console_errors d @ [(''Error loading current weather:'', e)]\<rparr>
      | None \<Rightarrow> d\<lparr>currentWeather := reply_data r\<rparr>)"

section \<open>Auxiliary definitions for the proofs\<close>

text \<open>
  The rows of a list of (day, hour) slots, produced one after the other; the slots of
  one day; the slots of the two loop nests in the order the loops visit them.
\<close>

fun run_slots :: "(int \<times> int \<Rightarrow> world \<Rightarrow> 'a \<times> world) \<Rightarrow> (int \<times> int) list \<Rightarrow> world \<Rightarrow> 'a list \<times> world" where
  "run_slots f [] w = ([], w)"
| "run_slots f (s # ss) w =
     (let (x, w1) = f s w; (xs, w2) = run_slots f ss w1 in (x # xs, w2))"

definition day_slots :: "int \<Rightarrow> (int \<times> int) list" where
  "day_slots day = map (Pair day) [0..23]"

definition hist_slots :: "(int \<times> int) list" where
  "hist_slots = concat (map day_slots (rev [0..7]))"

definition pred_slots :: "(int \<times> int) list" where
  "pred_slots = concat (map (\<lambda>d. map (Pair d) [0, 6, 12, 18]) [0, 1, 2, 3, 4])"

text \<open>
  A host whose random numbers are all \<open>c\<close> and whose clock stands at \<open>t\<close>; it prints a
  whole number in decimal. Three rows of \<^verbatim>\<open>weather_stations\<close>; the name of the last
  one is not in the table of profiles.
\<close>

definition steady_host :: "real \<Rightarrow> int \<Rightarrow> host" where
  "steady_host c t = \<lparr>math_random = (\<lambda>_. c), date_now = (\<lambda>_. t), number_toString = (\<lambda>x. toFixed x 0)\<rparr>"

definition pune_station :: station where
  "pune_station = \<lparr>station_name = ''Pune'', location = ''Maharashtra, Western India'',
     latitude = 185204 / 10000, longitude = 738567 / 10000,
     station_id = ''6f1c2a90-0000-4000-8000-000000000001''\<rparr>"

definition delhi_station :: station where
  "delhi_station = \<lparr>station_name = ''Delhi'', location = ''Northern India'',
     latitude = 286139 / 10000, longitude = 772090 / 10000,
     station_id = ''6f1c2a90-0000-4000-8000-000000000003''\<rparr>"

definition mumbai_station :: station where
  "mumbai_station = \<lparr>station_name = ''Mumbai'', location = ''Maharashtra, Western India'',
     latitude = 190760 / 10000, longitude = 728777 / 10000,
     station_id = ''6f1c2a90-0000-4000-8000-000000000002''\<rparr>"

text \<open>Replies without an error, the insert of the stations returning the given rows.\<close>

definition ok_replies :: "station list \<Rightarrow> replies" where
  "ok_replies sd =
     \<lparr>stations_reply = \<lparr>reply_data = Some sd, reply_error = None\<rparr>,
      data_reply = \<lparr>reply_data = None, reply_error = None\<rparr>,
      pred_reply = \<lparr>reply_data = None, reply_error = None\<rparr>,
      alert_reply = \<lparr>reply_data = None, reply_error = None\<rparr>\<rparr>"

text \<open>A profile of the given base temperature, for the alert branches.\<close>

definition hot_profile :: "real \<Rightarrow> profile" where
  "hot_profile t = \<lparr>baseTemp = t, tempRange = 8, humidity = \<lparr>bmin = 20, bmax = 50\<rparr>,
     rainProbability = fl (5 / 100), windSpeed = \<lparr>bmin = 5, bmax = 20\<rparr>\<rparr>"

section \<open>Rounding\<close>

subsection \<open>Rounding to the nearest double\<close>

lemma rne_cases: "rne y = \<lfloor>y\<rfloor> \<or> rne y = \<lfloor>y\<rfloor> + 1"
  by (simp add: rne_def Let_def)

lemma rne_err: "\<bar>of_int (rne y) - y\<bar> \<le> 1 / 2"
proof -
  have "of_int \<lfloor>y\<rfloor> \<le> y" "y < of_int \<lfloor>y\<rfloor> + 1" by linarith+
  then show ?thesis by (auto simp: rne_def Let_def)
qed

lemma rne_int: "rne (of_int n) = n"
  by (simp add: rne_def Let_def)

lemma rne_nonneg: "0 \<le> y \<Longrightarrow> 0 \<le> rne y"
proof -
  assume "0 \<le> y"
  then have "0 \<le> \<lfloor>y\<rfloor>" by simp
  then show ?thesis using rne_cases [of y] by linarith
qed

lemma rne_le: "y \<le> of_int N \<Longrightarrow> rne y \<le> N"
proof -
  assume y: "y \<le> of_int N"
  then have f: "\<lfloor>y\<rfloor> \<le> N" by (simp add: floor_le_iff)
  show ?thesis
  proof (cases "\<lfloor>y\<rfloor> = N")
    case True
    then have "of_int N \<le> y" by (metis of_int_floor_le)
    with y have "y = of_int N" by simp
    then show ?thesis by (simp add: rne_int)
  next
    case False
    with f have "\<lfloor>y\<rfloor> + 1 \<le> N" by simp
    then show ?thesis using rne_cases [of y] by linarith
  qed
qed

lemma rne_ge: "of_int N \<le> y \<Longrightarrow> N \<le> rne y"
proof -
  assume "of_int N \<le> y"
  then have "N \<le> \<lfloor>y\<rfloor>" by (simp add: le_floor_iff)
  then show ?thesis using rne_cases [of y] by linarith
qed

lemma ulp_pos: "0 < ulp x"
  by (simp add: ulp_def)

lemma fl_err_ulp: "\<bar>fl x - x\<bar> \<le> ulp x / 2"
proof (cases "x = 0")
  case True
  then show ?thesis using ulp_pos [of x] by (simp add: fl_def)
next
  case False
  have "\<bar>of_int (rne (x / ulp x)) - x / ulp x\<bar> * ulp x \<le> 1 / 2 * ulp x"
    using rne_err [of "x / ulp x"] ulp_pos [of x] by (intro mult_right_mono) simp_all
  moreover have "\<bar>of_int (rne (x / ulp x)) - x / ulp x\<bar> * ulp x =
      \<bar>of_int (rne (x / ulp x)) * ulp x - x\<bar>"
  proof -
    have "\<bar>of_int (rne (x / ulp x)) - x / ulp x\<bar> * ulp x =
        \<bar>(of_int (rne (x / ulp x)) - x / ulp x) * ulp x\<bar>"
      using ulp_pos [of x] by (simp add: abs_mult)
    also have "(of_int (rne (x / ulp x)) - x / ulp x) * ulp x = of_int (rne (x / ulp x)) * ulp x - x"
      using ulp_pos [of x] by (simp add: left_diff_distrib)
    finally show ?thesis .
  qed
  ultimately show ?thesis using False by (simp add: fl_def)
qed

lemma binade_le: "x \<noteq> 0 \<Longrightarrow> \<bar>x\<bar> \<le> 2 powr of_int k \<Longrightarrow> - 1022 \<le> k \<Longrightarrow> binade x \<le> k"
proof -
  assume x: "x \<noteq> 0" and b: "\<bar>x\<bar> \<le> 2 powr of_int k" and k: "- 1022 \<le> k"
  have "log 2 \<bar>x\<bar> \<le> of_int k"
    using x b by (simp add: log_le_iff)
  then have "\<lfloor>log 2 \<bar>x\<bar>\<rfloor> \<le> k" by (simp add: floor_le_iff)
  then show ?thesis using k by (simp add: binade_def)
qed

lemma fl_err: "\<bar>x\<bar> \<le> 2048 \<Longrightarrow> \<bar>fl x - x\<bar> \<le> 1 / 4398046511104"
proof (cases "x = 0")
  case True
  then show ?thesis by (simp add: fl_def)
next
  case False
  assume "\<bar>x\<bar> \<le> 2048"
  then have "\<bar>x\<bar> \<le> 2 powr of_int 11" by simp
  from binade_le [OF False this] have "binade x \<le> 11" by simp
  then have "ulp x \<le> 2 powr of_int (11 - 52)"
    unfolding ulp_def by (intro powr_mono) simp_all
  also have "\<dots> = 1 / 2199023255552" by (simp add: powr_minus_divide)
  finally show ?thesis using fl_err_ulp [of x] by linarith
qed

lemma fl_nonneg: "0 \<le> x \<Longrightarrow> 0 \<le> fl x"
  using ulp_pos [of x] by (simp add: fl_def rne_nonneg)

lemma abs_lt_next_binade:
  assumes "x \<noteq> 0"
  shows "\<bar>x\<bar> < 2 powr of_int (binade x + 1)"
proof -
  have "log 2 \<bar>x\<bar> < of_int (\<lfloor>log 2 \<bar>x\<bar>\<rfloor> + 1)" by simp
  also have "\<dots> \<le> of_int (binade x + 1)" by (simp add: binade_def)
  finally have "log 2 \<bar>x\<bar> < of_int (binade x + 1)" .
  then show ?thesis using assms by (simp add: log_less_iff)
qed

lemma fl_abs_le_scaled:
  assumes "x \<noteq> 0" "\<bar>x\<bar> \<le> of_int N * ulp x"
  shows "\<bar>fl x\<bar> \<le> of_int N * ulp x"
proof -
  have q: "0 < ulp x" by (rule ulp_pos)
  have "\<bar>x / ulp x\<bar> \<le> of_int N" using assms(2) q by (simp add: field_simps)
  then have "x / ulp x \<le> of_int N" "- of_int N \<le> x / ulp x" by linarith+
  then have b: "x / ulp x \<le> of_int N" "of_int (- N) \<le> x / ulp x" by simp_all
  have "rne (x / ulp x) \<le> N" "- N \<le> rne (x / ulp x)"
    using rne_le [OF b(1)] rne_ge [OF b(2)] by simp_all
  then have "\<bar>real_of_int (rne (x / ulp x))\<bar> \<le> of_int N"
    by (simp add: abs_le_iff)
  then show ?thesis
    using assms(1) q by (simp add: fl_def abs_mult mult_right_mono)
qed

lemma pow2_ulp: "2 ^ n * ulp x = 2 powr of_int (binade x - 52 + int n)"
proof -
  have "(2::real) ^ n = 2 powr of_int (int n)" by (simp add: powr_realpow)
  then have "2 ^ n * ulp x = 2 powr of_int (int n) * 2 powr of_int (binade x - 52)"
    by (simp only: ulp_def)
  also have "\<dots> = 2 powr (of_int (int n) + of_int (binade x - 52))" by (simp only: powr_add)
  also have "of_int (int n) + of_int (binade x - 52) = (of_int (binade x - 52 + int n) :: real)"
    by simp
  finally show ?thesis .
qed

lemma fl_abs_le_pow2:
  assumes "\<bar>x\<bar> \<le> 2 powr of_int k" "- 1022 \<le> k"
  shows "\<bar>fl x\<bar> \<le> 2 powr of_int k"
proof (cases "x = 0")
  case True
  then show ?thesis by (simp add: fl_def)
next
  case False
  have e: "binade x \<le> k" using binade_le [OF False assms] .
  show ?thesis
  proof (cases "binade x = k")
    case True
    have n: "of_int (2 ^ 52) * ulp x = 2 powr of_int k"
    proof -
      have "binade x - 52 + int 52 = k" using True by simp
      with pow2_ulp [of 52 x] have "2 ^ 52 * ulp x = 2 powr of_int k" by (simp only:)
      then show ?thesis by (simp only: of_int_power of_int_numeral)
    qed
    from fl_abs_le_scaled [OF False, of "2 ^ 52"] assms(1)
    show ?thesis unfolding n by simp
  next
    case ne: False
    have n: "of_int (2 ^ 53) * ulp x = 2 powr of_int (binade x + 1)"
    proof -
      have "binade x - 52 + int 53 = binade x + 1" by simp
      with pow2_ulp [of 53 x] have "2 ^ 53 * ulp x = 2 powr of_int (binade x + 1)" by (simp only:)
      then show ?thesis by (simp only: of_int_power of_int_numeral)
    qed
    have "\<bar>x\<bar> \<le> of_int (2 ^ 53) * ulp x"
      using abs_lt_next_binade [OF False] unfolding n by simp
    from fl_abs_le_scaled [OF False this]
    have "\<bar>fl x\<bar> \<le> 2 powr of_int (binade x + 1)" unfolding n .
    also have "\<dots> \<le> 2 powr of_int k" using e ne by (intro powr_mono) simp_all
    finally show ?thesis .
  qed
qed

lemma fl_abs_le_half: "\<bar>x\<bar> \<le> 1 / 2 \<Longrightarrow> \<bar>fl x\<bar> \<le> 1 / 2"
  using fl_abs_le_pow2 [of x "- 1"] by (simp add: powr_minus_divide)

lemma fl_abs_le_1: "\<bar>x\<bar> \<le> 1 \<Longrightarrow> \<bar>fl x\<bar> \<le> 1"
  using fl_abs_le_pow2 [of x 0] by simp

lemma fl_abs_le_2: "\<bar>x\<bar> \<le> 2 \<Longrightarrow> \<bar>fl x\<bar> \<le> 2"
  using fl_abs_le_pow2 [of x 1] by simp

lemma fl_0: "fl 0 = 0"
  by (simp add: fl_def)

subsection \<open>Rounding to decimals\<close>

lemma Number_toFixed_nonneg:
  "0 \<le> x \<Longrightarrow> Number_toFixed x d = real_of_int \<lfloor>x * 10 ^ d + 1 / 2\<rfloor> / 10 ^ d"
proof -
  assume x: "0 \<le> x"
  then have "0 \<le> x * 10 ^ d + 1 / 2" by simp
  then have "0 \<le> \<lfloor>x * 10 ^ d + 1 / 2\<rfloor>" by simp
  then show ?thesis using x by (simp add: Number_toFixed_def toFixed_scaled_def)
qed

lemma Number_toFixed_ge0: "0 \<le> x \<Longrightarrow> 0 \<le> Number_toFixed x d"
  by (simp add: Number_toFixed_def toFixed_scaled_def)

lemma Number_toFixed_mono:
  assumes "0 \<le> x" "x \<le> y"
  shows "Number_toFixed x d \<le> Number_toFixed y d"
proof -
  have "x * 10 ^ d + 1 / 2 \<le> y * 10 ^ d + 1 / 2" using assms by simp
  then have "\<lfloor>x * 10 ^ d + 1 / 2\<rfloor> \<le> \<lfloor>y * 10 ^ d + 1 / 2\<rfloor>" by (rule floor_mono)
  then show ?thesis using assms
    by (simp add: Number_toFixed_nonneg divide_right_mono)
qed

lemma Number_toFixed_exact:
  assumes "0 \<le> a" "a * 10 ^ d = real_of_int k"
  shows "Number_toFixed a d = a"
proof -
  have "\<lfloor>a * 10 ^ d + 1 / 2\<rfloor> = k"
    unfolding assms(2) by linarith
  then have "Number_toFixed a d = real_of_int k / 10 ^ d"
    using assms(1) by (simp add: Number_toFixed_nonneg)
  also have "\<dots> = a" using assms(2) [symmetric] by simp
  finally show ?thesis .
qed

lemma Number_toFixed_between:
  assumes "0 \<le> lo" "lo * 10 ^ d = real_of_int k" "hi * 10 ^ d = real_of_int l"
    and "lo \<le> x" "x \<le> hi"
  shows "lo \<le> Number_toFixed x d \<and> Number_toFixed x d \<le> hi"
proof -
  have "Number_toFixed lo d \<le> Number_toFixed x d"
    using assms by (intro Number_toFixed_mono) auto
  moreover have "Number_toFixed x d \<le> Number_toFixed hi d"
    using assms by (intro Number_toFixed_mono) auto
  moreover have "Number_toFixed lo d = lo" using assms by (intro Number_toFixed_exact) auto
  moreover have "Number_toFixed hi d = hi" using assms by (intro Number_toFixed_exact [of _ _ l]) auto
  ultimately show ?thesis by simp
qed

lemma Number_toFixed_near:
  "\<bar>Number_toFixed x 2 - x\<bar> \<le> 1 / 200"
proof -
  have *: "\<bar>real_of_int \<lfloor>y * 100 + 1 / 2\<rfloor> / 100 - y\<bar> \<le> 1 / 200" for y :: real
  proof -
    have "real_of_int \<lfloor>y * 100 + 1 / 2\<rfloor> \<le> y * 100 + 1 / 2"
      "y * 100 + 1 / 2 < real_of_int \<lfloor>y * 100 + 1 / 2\<rfloor> + 1" by linarith+
    then show ?thesis by (intro abs_leI) linarith+
  qed
  show ?thesis
  proof (cases "x < 0")
    case True
    have "0 \<le> \<lfloor>- x * 100 + 1 / 2\<rfloor>" using True by simp
    then have "Number_toFixed x 2 = - (real_of_int \<lfloor>(- x) * 100 + 1 / 2\<rfloor> / 100)"
      using True by (simp add: Number_toFixed_def toFixed_scaled_def)
    then show ?thesis using * [of "- x"] by linarith
  next
    case False
    then show ?thesis using * [of x] by (simp add: Number_toFixed_nonneg)
  qed
qed

subsection \<open>The double of a number of a known binade\<close>

lemma fl_bounds:
  "\<bar>x\<bar> \<le> 2048 \<Longrightarrow> x - 1 / 4398046511104 \<le> fl x \<and> fl x \<le> x + 1 / 4398046511104"
  using fl_err [of x] by linarith

lemma binade_eq:
  assumes "x \<noteq> 0" "2 powr of_int e \<le> \<bar>x\<bar>" "\<bar>x\<bar> < 2 powr of_int (e + 1)" "- 1022 \<le> e"
  shows "binade x = e"
proof -
  have "of_int e \<le> log 2 \<bar>x\<bar>" using assms(1,2) by (simp add: le_log_iff)
  moreover have "log 2 \<bar>x\<bar> < of_int e + 1" using assms(1,3) by (simp add: log_less_iff)
  ultimately have "\<lfloor>log 2 \<bar>x\<bar>\<rfloor> = e" by (intro floor_unique) simp_all
  then show ?thesis using assms(4) by (simp add: binade_def)
qed

lemma fl_at:
  assumes "x \<noteq> 0" "2 powr of_int e \<le> \<bar>x\<bar>" "\<bar>x\<bar> < 2 powr of_int (e + 1)" "- 1022 \<le> e"
  shows "fl x = of_int (rne (x / 2 powr of_int (e - 52))) * 2 powr of_int (e - 52)"
  using assms(1) by (simp add: fl_def ulp_def binade_eq [OF assms])

text \<open>A number close to one of \<open>d\<close> decimals is printed as that one.\<close>

lemma Number_toFixed_stable:
  assumes "0 \<le> a" "a * 10 ^ d = real_of_int k" "\<bar>x - a\<bar> * 10 ^ d < 1 / 2"
  shows "Number_toFixed x d = a"
proof -
  have k: "0 \<le> k"
  proof -
    have "0 \<le> a * 10 ^ d" using assms(1) by simp
    then show ?thesis unfolding assms(2) by simp
  qed
  have b: "\<bar>x * 10 ^ d - real_of_int k\<bar> < 1 / 2"
  proof -
    have "x * 10 ^ d - real_of_int k = (x - a) * 10 ^ d"
      unfolding assms(2) [symmetric] by (simp add: left_diff_distrib)
    then show ?thesis using assms(3) by (simp add: abs_mult)
  qed
  show ?thesis
  proof (cases "x < 0")
    case False
    have "\<lfloor>x * 10 ^ d + 1 / 2\<rfloor> = k" using b by (intro floor_unique) linarith+
    then have "Number_toFixed x d = real_of_int k / 10 ^ d"
      using False by (simp add: Number_toFixed_nonneg)
    also have "\<dots> = a" using assms(2) [symmetric] by simp
    finally show ?thesis .
  next
    case True
    then have "x * 10 ^ d < 0" by (simp add: mult_neg_pos)
    with b k have "real_of_int k < 1 / 2" "0 \<le> real_of_int k" by linarith+
    then have "k = 0" by linarith
    then have a0: "a = 0" using assms(2) by simp
    have "\<bar>x\<bar> * 10 ^ d < 1 / 2" using assms(3) a0 by simp
    moreover have "0 \<le> \<bar>x\<bar> * 10 ^ d" by simp
    ultimately have "\<lfloor>\<bar>x\<bar> * 10 ^ d + 1 / 2\<rfloor> = 0" by (intro floor_unique) linarith+
    then show ?thesis using a0 by (simp add: Number_toFixed_def toFixed_scaled_def)
  qed
qed

subsection \<open>The sine of the hour\<close>

lemma sin_Lipschitz: "\<bar>sin a - sin b\<bar> \<le> \<bar>a - b\<bar>" for a b :: real
proof -
  have "\<bar>sin a - sin b\<bar> = 2 * \<bar>sin ((a - b) / 2)\<bar> * \<bar>cos ((a + b) / 2)\<bar>"
    by (simp add: sin_diff_sin abs_mult)
  also have "\<dots> \<le> 2 * \<bar>(a - b) / 2\<bar> * 1"
    by (intro mult_mono mult_left_mono abs_sin_x_le_abs_x abs_cos_le_one) simp_all
  also have "\<dots> = \<bar>a - b\<bar>" by simp
  finally show ?thesis .
qed

lemma mult_err:
  fixes x y x' y' :: real
  assumes "\<bar>x - x'\<bar> \<le> dx" "\<bar>y - y'\<bar> \<le> dy" "\<bar>y\<bar> \<le> Y" "\<bar>x'\<bar> \<le> X"
  shows "\<bar>x * y - x' * y'\<bar> \<le> dx * Y + X * dy"
proof -
  have dx: "0 \<le> dx" using assms(1) by linarith
  have X: "0 \<le> X" using assms(4) by linarith
  have "x * y - x' * y' = (x - x') * y + x' * (y - y')" by (simp add: algebra_simps)
  then have "\<bar>x * y - x' * y'\<bar> \<le> \<bar>x - x'\<bar> * \<bar>y\<bar> + \<bar>x'\<bar> * \<bar>y - y'\<bar>"
    by (metis abs_mult abs_triangle_ineq)
  also have "\<dots> \<le> dx * Y + X * dy"
    using assms dx X by (intro add_mono mult_mono) simp_all
  finally show ?thesis .
qed

lemma Math_PI_err: "\<bar>Math_PI - pi\<bar> \<le> 1 / 4398046511104"
  unfolding Math_PI_def using pi_less_4 pi_ge_zero by (intro fl_err) linarith

lemma hourFactor_abs: "\<bar>hourFactor hour\<bar> \<le> 1"
  unfolding hourFactor_def Math_sin_def by (intro fl_abs_le_1) simp

lemma hourFactor_err:
  assumes "0 \<le> hour" "hour \<le> 23"
  shows "\<bar>hourFactor hour - sin (2 * pi * (real_of_int hour - 6) / 24)\<bar> \<le> 16 / 4398046511104"
proof -
  define a where "a = real_of_int (hour - 6) / 24"
  define a1 where "a1 = fl a"
  define a2 where "a2 = fl (a1 * Math_PI)"
  define a3 where "a3 = fl (a2 * 2)"
  have a: "\<bar>a\<bar> \<le> 1" using assms by (simp add: a_def abs_le_iff)
  then have "\<bar>a\<bar> \<le> 2048" by linarith
  then have e1: "\<bar>a1 - a\<bar> \<le> 1 / 4398046511104" unfolding a1_def by (rule fl_err)
  have P: "\<bar>Math_PI\<bar> \<le> 5" using Math_PI_err pi_less_4 pi_ge_zero by linarith
  have m1: "\<bar>a1 * Math_PI - a * pi\<bar> \<le> 1 / 4398046511104 * 5 + 1 * (1 / 4398046511104)"
    using e1 Math_PI_err P a by (rule mult_err)
  have api: "\<bar>a * pi\<bar> \<le> 4"
  proof -
    have "\<bar>a * pi\<bar> = \<bar>a\<bar> * pi" by (simp add: abs_mult)
    also have "\<dots> \<le> 1 * 4" using a pi_less_4 by (intro mult_mono) simp_all
    finally show ?thesis by simp
  qed
  have b1: "\<bar>a1 * Math_PI\<bar> \<le> 2048" using m1 api by linarith
  have e2: "\<bar>a2 - a1 * Math_PI\<bar> \<le> 1 / 4398046511104" unfolding a2_def using b1 by (rule fl_err)
  have d2: "\<bar>a2 - a * pi\<bar> \<le> 7 / 4398046511104" using e2 m1 by linarith
  have b2: "\<bar>a2 * 2\<bar> \<le> 2048" using d2 api by linarith
  have e3: "\<bar>a3 - a2 * 2\<bar> \<le> 1 / 4398046511104" unfolding a3_def using b2 by (rule fl_err)
  have d3: "\<bar>a3 - 2 * (a * pi)\<bar> \<le> 15 / 4398046511104" using e3 d2 by linarith
  have arg: "2 * (a * pi) = 2 * pi * (real_of_int hour - 6) / 24" by (simp add: a_def)
  have s: "\<bar>sin a3 - sin (2 * (a * pi))\<bar> \<le> 15 / 4398046511104"
    using sin_Lipschitz [of a3 "2 * (a * pi)"] d3 by linarith
  have "\<bar>sin a3\<bar> \<le> 2048" using abs_sin_le_one [of a3] by linarith
  then have "\<bar>fl (sin a3) - sin a3\<bar> \<le> 1 / 4398046511104" by (rule fl_err)
  then have "\<bar>fl (sin a3) - sin (2 * (a * pi))\<bar> \<le> 16 / 4398046511104"
    using s by linarith
  then show ?thesis
    unfolding arg hourFactor_def Math_sin_def a3_def a2_def a1_def a_def by simp
qed

subsection \<open>Numbers that are doubles\<close>

text \<open>
  A multiple of \<open>2\<^sup>-\<^sup>j\<close> of magnitude at most \<open>2\<^sup>k\<close> with \<open>j + k \<le> 52\<close> is a double, and
  rounding does not cross it.
\<close>

lemma grid_ulp:
  assumes "x \<noteq> 0" "\<bar>x\<bar> \<le> 2 powr of_int k" "- 1022 \<le> k" "int j + k \<le> 52"
  shows "\<exists>M :: int. real_of_int N / 2 ^ j = of_int M * ulp x"
proof -
  have b: "binade x \<le> k" by (rule binade_le [OF assms(1-3)])
  define i where "i = nat (52 - binade x - int j)"
  have "binade x - 52 = - int (i + j)" using b assms(4) by (simp add: i_def)
  then have "ulp x = 2 powr (- real (i + j))" by (simp add: ulp_def)
  also have "\<dots> = 1 / 2 powr real (i + j)" by (rule powr_minus_divide)
  also have "2 powr real (i + j) = (2::real) ^ (i + j)" by (rule powr_realpow) simp
  finally have u: "ulp x = 1 / 2 ^ (i + j)" .
  show ?thesis by (intro exI [of _ "N * 2 ^ i"]) (simp add: u power_add)
qed

lemma fl_le_grid:
  assumes "\<bar>x\<bar> \<le> 2 powr of_int k" "- 1022 \<le> k" "int j + k \<le> 52" "x \<le> real_of_int N / 2 ^ j"
  shows "fl x \<le> real_of_int N / 2 ^ j"
proof (cases "x = 0")
  case True
  then show ?thesis using assms(4) by (simp add: fl_0)
next
  case False
  from grid_ulp [OF False assms(1-3), of N] obtain M :: int where
    M: "real_of_int N / 2 ^ j = of_int M * ulp x" by blast
  have "x / ulp x \<le> of_int M"
    using assms(4) M ulp_pos [of x] by (simp add: pos_divide_le_eq)
  then have "rne (x / ulp x) \<le> M" by (rule rne_le)
  then have "real_of_int (rne (x / ulp x)) \<le> of_int M" by simp
  then have "of_int (rne (x / ulp x)) * ulp x \<le> of_int M * ulp x"
    using ulp_pos [of x] by (intro mult_right_mono) simp_all
  then show ?thesis using False M by (simp add: fl_def)
qed

lemma fl_ge_grid:
  assumes "\<bar>x\<bar> \<le> 2 powr of_int k" "- 1022 \<le> k" "int j + k \<le> 52" "real_of_int N / 2 ^ j \<le> x"
  shows "real_of_int N / 2 ^ j \<le> fl x"
proof (cases "x = 0")
  case True
  then show ?thesis using assms(4) by (simp add: fl_0)
next
  case False
  from grid_ulp [OF False assms(1-3), of N] obtain M :: int where
    M: "real_of_int N / 2 ^ j = of_int M * ulp x" by blast
  have "of_int M \<le> x / ulp x"
    using assms(4) M ulp_pos [of x] by (simp add: pos_le_divide_eq)
  then have "M \<le> rne (x / ulp x)" by (rule rne_ge)
  then have "real_of_int M \<le> of_int (rne (x / ulp x))" by simp
  then have "of_int M * ulp x \<le> of_int (rne (x / ulp x)) * ulp x"
    using ulp_pos [of x] by (intro mult_right_mono) simp_all
  then show ?thesis using False M by (simp add: fl_def)
qed

lemma fl_grid:
  assumes "\<bar>real_of_int N / 2 ^ j\<bar> \<le> 2 powr of_int k" "- 1022 \<le> k" "int j + k \<le> 52"
  shows "fl (real_of_int N / 2 ^ j) = real_of_int N / 2 ^ j"
  using fl_le_grid [OF assms, of N] fl_ge_grid [OF assms, of N] by simp

lemma fl_of_int: "\<bar>n\<bar> \<le> 2048 \<Longrightarrow> fl (real_of_int n) = real_of_int n"
  using fl_grid [of n 0 11] by simp

lemma fl_le_int: "\<bar>x\<bar> \<le> 2048 \<Longrightarrow> x \<le> real_of_int N \<Longrightarrow> fl x \<le> real_of_int N"
  using fl_le_grid [of x 11 0 N] by simp

lemma fl_ge_int: "\<bar>x\<bar> \<le> 2048 \<Longrightarrow> real_of_int N \<le> x \<Longrightarrow> real_of_int N \<le> fl x"
  using fl_ge_grid [of x 11 0 N] by simp

lemma fl_at_nat:
  fixes e :: nat
  assumes "2 ^ e \<le> \<bar>x\<bar>" "\<bar>x\<bar> < 2 ^ (e + 1)" "e \<le> 52"
  shows "fl x = real_of_int (rne (x * 2 ^ (52 - e))) / 2 ^ (52 - e)"
proof -
  have p: "2 powr real_of_int (int n) = (2::real) ^ n" for n
    by (simp add: powr_realpow)
  have "0 < \<bar>x\<bar>" by (rule less_le_trans [OF _ assms(1)]) simp
  then have x: "x \<noteq> 0" by simp
  have "real_of_int (int e - 52) = - real (52 - e)" using assms(3) by simp
  then have "2 powr real_of_int (int e - 52) = 2 powr (- real (52 - e))" by (simp only:)
  also have "\<dots> = 1 / 2 powr real (52 - e)" by (rule powr_minus_divide)
  also have "2 powr real (52 - e) = (2::real) ^ (52 - e)" by (rule powr_realpow) simp
  finally have u: "2 powr real_of_int (int e - 52) = 1 / 2 ^ (52 - e)" .
  have "2 powr real_of_int (int e) \<le> \<bar>x\<bar>" using assms(1) by (simp only: p)
  moreover have "\<bar>x\<bar> < 2 powr real_of_int (int e + 1)"
  proof -
    have "int e + 1 = int (e + 1)" by simp
    then have "2 powr real_of_int (int e + 1) = (2::real) ^ (e + 1)" by (simp only: p)
    then show ?thesis using assms(2) by (simp only:)
  qed
  ultimately have "fl x = real_of_int (rne (x / 2 powr real_of_int (int e - 52))) * 2 powr real_of_int (int e - 52)"
    using x by (intro fl_at) simp_all
  then have "fl x = real_of_int (rne (x / (1 / 2 ^ (52 - e)))) * (1 / 2 ^ (52 - e))"
    by (simp only: u)
  then show ?thesis by simp
qed

subsection \<open>Two rows, evaluated\<close>

text \<open>
  The temperature of a Pune row at hour 6 for the random number \<open>11258999068427 / 2\<^sup>5\<^sup>2\<close>,
  and the confidence of day 0 for \<open>5629499534214 / 2\<^sup>5\<^sup>2\<close>.
\<close>

lemma hourFactor_6: "hourFactor 6 = 0"
  by (simp add: hourFactor_def Math_sin_def fl_0)

lemma fl_28: "fl 28 = 28" using fl_of_int [of 28] by simp
lemma fl_95: "fl 95 = 95" using fl_of_int [of 95] by simp

lemma draw_temp:
  "fl (fl (baseTemp Pune + fl (hourFactor 6 * tempRange Pune))
      + fl (fl (11258999068427 / 4503599627370496 - 1 / 2) * 2))
     = 7601231746071265 / 281474976710656"
proof -
  have h: "fl (baseTemp Pune + fl (hourFactor 6 * tempRange Pune)) = 28"
    by (simp add: Pune_def hourFactor_6 fl_0 fl_28)
  have a: "fl (11258999068427 / 4503599627370496 - 1 / 2) = - 2240540814616821 / 4503599627370496"
    using fl_grid [of "- 2240540814616821" 52 0] by simp
  have b: "fl (- 2240540814616821 / 4503599627370496 * 2) = - 2240540814616821 / 2251799813685248"
    using fl_grid [of "- 2240540814616821" 51 0] by simp
  have c: "fl (28 + - 2240540814616821 / 2251799813685248) = 7601231746071265 / 281474976710656"
    using fl_at_nat [of 4 "28 + - 2240540814616821 / 2251799813685248"]
    by (simp add: rne_def)
  show ?thesis by (simp only: h a b c)
qed

lemma draw_conf:
  "fl (95 - real_of_int 0 * 3 + fl (fl (5629499534214 / 4503599627370496 - 1 / 2) * 4))
     = 6544645052243640 / 70368744177664"
proof -
  have h: "95 - real_of_int 0 * 3 = (95::real)" by simp
  have a: "fl (5629499534214 / 4503599627370496 - 1 / 2) = - 2246170314151034 / 4503599627370496"
    using fl_grid [of "- 2246170314151034" 52 0] by simp
  have b: "fl (- 2246170314151034 / 4503599627370496 * 4) = - 2246170314151034 / 1125899906842624"
    using fl_grid [of "- 2246170314151034" 50 1] by simp
  have c: "fl (95 + - 2246170314151034 / 1125899906842624) = 6544645052243640 / 70368744177664"
    using fl_at_nat [of 6 "95 + - 2246170314151034 / 1125899906842624"]
    by (simp add: rne_def)
  show ?thesis by (simp only: h a b c)
qed

lemma draw_temp_stored: "Number_toFixed (7601231746071265 / 281474976710656) 2 = 27"
  by (simp add: Number_toFixed_nonneg)

lemma draw_conf_stored: "Number_toFixed (max 75 (min 98 (6544645052243640 / 70368744177664))) 2 = 93"
  by (simp add: Number_toFixed_nonneg)

section \<open>The rows\<close>

subsection \<open>The fields of a row\<close>

lemma weather_row_temperature:
  "temperature (fst (weather_row h p sid d hr w)) =
     Number_toFixed (fl (fl (baseTemp p + fl (hourFactor hr * tempRange p))
       + fl (fl (math_random h (random_calls w) - 1 / 2) * 2))) 2"
  by (simp add: weather_row_def Date_now_def Math_random_def Let_def split_def)

lemma weather_row_precipitation:
  assumes "\<forall>i. 0 \<le> math_random h i"
  shows "0 \<le> precipitation (fst (weather_row h p sid d hr w))"
proof -
  have "0 \<le> fl (fl (math_random h i * 15) + 2)" for i
    using assms by (intro fl_nonneg add_nonneg_nonneg) simp_all
  then show ?thesis
    by (simp add: weather_row_def Math_random_def Let_def split_def Number_toFixed_ge0)
qed

lemma prediction_row_confidence:
  "confidence (fst (prediction_row h p sid d hr w)) =
     Number_toFixed (max 75 (min 98 (fl (95 - real_of_int d * 3 +
       fl (fl (math_random h (random_calls w +
          (if math_random h (random_calls w + 1) < fl (rainProbability p * fl (8 / 10)) then 3 else 2))
        - 1 / 2) * 4))))) 2"
  by (simp add: prediction_row_def Date_now_def Math_random_def Let_def split_def numeral_3_eq_3)

lemma prediction_row_temp:
  "predicted_temp (fst (prediction_row h p sid d hr w)) =
     Number_toFixed (fl (fl (baseTemp p + fl (hourFactor hr * tempRange p))
       + fl (real_of_int d * (1 / 2)))) 2"
  by (simp add: prediction_row_def Date_now_def Math_random_def Let_def split_def)

subsection \<open>The temperature of a row, on doubles and on reals\<close>

lemma profile_of_cases:
  "profile_of name \<in> {Mumbai, Pune, Alandi, Sangamner, Nagpur}"
  by (simp add: profile_of_def climateProfiles_def)

lemma profile_of_bounds:
  "27 \<le> baseTemp (profile_of name) \<and> baseTemp (profile_of name) \<le> 32 \<and>
   5 \<le> tempRange (profile_of name) \<and> tempRange (profile_of name) \<le> 9"
  using profile_of_cases [of name]
  by (auto simp: Mumbai_def Pune_def Alandi_def Sangamner_def Nagpur_def)

text \<open>The noise terms.\<close>

lemma noise_range:
  assumes "0 \<le> r" "r < 1"
  shows "- 1 \<le> (r - 1 / 2) * 2" "(r - 1 / 2) * 2 < 1" "- 2 \<le> (r - 1 / 2) * 4" "(r - 1 / 2) * 4 < (2::real)"
  using assms by simp_all

lemma noise_double:
  assumes "0 \<le> r" "r < 1"
  shows "\<bar>fl (fl (r - 1 / 2) * 2)\<bar> \<le> 1"
    and "\<bar>fl (fl (r - 1 / 2) * 2) - (r - 1 / 2) * 2\<bar> \<le> 3 / 4398046511104"
    and "\<bar>fl (fl (r - 1 / 2) * 4)\<bar> \<le> 2"
    and "\<bar>fl (fl (r - 1 / 2) * 4) - (r - 1 / 2) * 4\<bar> \<le> 5 / 4398046511104"
proof -
  define v where "v = fl (r - 1 / 2)"
  define v2 where "v2 = fl (v * 2)"
  define v4 where "v4 = fl (v * 4)"
  have a: "\<bar>r - 1 / 2\<bar> \<le> 1 / 2" using assms by linarith
  then have h: "\<bar>v\<bar> \<le> 1 / 2" unfolding v_def by (rule fl_abs_le_half)
  have "\<bar>r - 1 / 2\<bar> \<le> 2048" using a by linarith
  then have e: "\<bar>v - (r - 1 / 2)\<bar> \<le> 1 / 4398046511104" unfolding v_def by (rule fl_err)
  have "\<bar>v * 2\<bar> \<le> 1" using h by linarith
  then have r2: "\<bar>v2\<bar> \<le> 1" unfolding v2_def by (rule fl_abs_le_1)
  have "\<bar>v * 2\<bar> \<le> 2048" using h by linarith
  then have "\<bar>v2 - v * 2\<bar> \<le> 1 / 4398046511104" unfolding v2_def by (rule fl_err)
  then have e2: "\<bar>v2 - (r - 1 / 2) * 2\<bar> \<le> 3 / 4398046511104"
    using e by argo
  have "\<bar>v * 4\<bar> \<le> 2" using h by linarith
  then have r4: "\<bar>v4\<bar> \<le> 2" unfolding v4_def by (rule fl_abs_le_2)
  have "\<bar>v * 4\<bar> \<le> 2048" using h by linarith
  then have "\<bar>v4 - v * 4\<bar> \<le> 1 / 4398046511104" unfolding v4_def by (rule fl_err)
  then have e4: "\<bar>v4 - (r - 1 / 2) * 4\<bar> \<le> 5 / 4398046511104"
    using e by argo
  show "\<bar>fl (fl (r - 1 / 2) * 2)\<bar> \<le> 1"
    "\<bar>fl (fl (r - 1 / 2) * 2) - (r - 1 / 2) * 2\<bar> \<le> 3 / 4398046511104"
    "\<bar>fl (fl (r - 1 / 2) * 4)\<bar> \<le> 2"
    "\<bar>fl (fl (r - 1 / 2) * 4) - (r - 1 / 2) * 4\<bar> \<le> 5 / 4398046511104"
    using r2 e2 r4 e4 unfolding v2_def v4_def v_def by simp_all
qed

text \<open>\<^verbatim>\<open>profile.baseTemp + (hourFactor * profile.tempRange)\<close> on doubles and on reals.\<close>

lemma diurnal_err:
  assumes "0 \<le> hour" "hour \<le> 23"
  shows "\<bar>fl (baseTemp (profile_of name) + fl (hourFactor hour * tempRange (profile_of name)))
      - (baseTemp (profile_of name)
         + sin (2 * pi * (real_of_int hour - 6) / 24) * tempRange (profile_of name))\<bar>
    \<le> 146 / 4398046511104"
    and "\<bar>fl (baseTemp (profile_of name) + fl (hourFactor hour * tempRange (profile_of name)))\<bar> \<le> 42"
proof -
  define b where "b = baseTemp (profile_of name)"
  define t where "t = tempRange (profile_of name)"
  define s where "s = sin (2 * pi * (real_of_int hour - 6) / 24)"
  define m where "m = fl (hourFactor hour * t)"
  have bt: "27 \<le> b" "b \<le> 32" "5 \<le> t" "t \<le> 9"
    using profile_of_bounds [of name] by (simp_all add: b_def t_def)
  have s1: "\<bar>s\<bar> \<le> 1" unfolding s_def by (rule abs_sin_le_one)
  have hs: "\<bar>hourFactor hour - s\<bar> \<le> 16 / 4398046511104"
    unfolding s_def using assms by (rule hourFactor_err)
  have tt: "\<bar>t - t\<bar> \<le> 0" "\<bar>t\<bar> \<le> 9" using bt by simp_all
  have p: "\<bar>hourFactor hour * t - s * t\<bar> \<le> 16 / 4398046511104 * 9 + 1 * 0"
    using hs tt(1) tt(2) s1 by (rule mult_err)
  have st: "\<bar>s * t\<bar> \<le> 9"
  proof -
    have "\<bar>s * t\<bar> = \<bar>s\<bar> * \<bar>t\<bar>" by (rule abs_mult)
    also have "\<dots> \<le> 1 * 9" using s1 tt(2) by (intro mult_mono) simp_all
    finally show ?thesis by simp
  qed
  have "\<bar>hourFactor hour * t\<bar> \<le> 2048" using p st by linarith
  then have "\<bar>m - hourFactor hour * t\<bar> \<le> 1 / 4398046511104" unfolding m_def by (rule fl_err)
  then have dm: "\<bar>m - s * t\<bar> \<le> 145 / 4398046511104" using p by linarith
  have "\<bar>b + m\<bar> \<le> 2048" using dm st bt by linarith
  then have "\<bar>fl (b + m) - (b + m)\<bar> \<le> 1 / 4398046511104" by (rule fl_err)
  then have "\<bar>fl (b + m) - (b + s * t)\<bar> \<le> 146 / 4398046511104" using dm by linarith
  moreover from this have "\<bar>fl (b + m)\<bar> \<le> 42" using st bt by linarith
  ultimately show
    "\<bar>fl (baseTemp (profile_of name) + fl (hourFactor hour * tempRange (profile_of name)))
      - (baseTemp (profile_of name)
         + sin (2 * pi * (real_of_int hour - 6) / 24) * tempRange (profile_of name))\<bar>
    \<le> 146 / 4398046511104"
    "\<bar>fl (baseTemp (profile_of name) + fl (hourFactor hour * tempRange (profile_of name)))\<bar> \<le> 42"
    unfolding b_def t_def s_def m_def by simp_all
qed

lemma observation_temp_err:
  assumes "0 \<le> hour" "hour \<le> 23" "0 \<le> r" "r < 1"
  shows "\<bar>fl (fl (baseTemp (profile_of name) + fl (hourFactor hour * tempRange (profile_of name)))
        + fl (fl (r - 1 / 2) * 2))
      - (baseTemp (profile_of name)
         + sin (2 * pi * (real_of_int hour - 6) / 24) * tempRange (profile_of name)
         + (r - 1 / 2) * 2)\<bar>
    \<le> 1 / 10 ^ 9"
proof -
  define c where "c = fl (baseTemp (profile_of name) + fl (hourFactor hour * tempRange (profile_of name)))"
  define u where "u = fl (fl (r - 1 / 2) * 2)"
  have c: "\<bar>c - (baseTemp (profile_of name)
         + sin (2 * pi * (real_of_int hour - 6) / 24) * tempRange (profile_of name))\<bar>
      \<le> 146 / 4398046511104" "\<bar>c\<bar> \<le> 42"
    unfolding c_def using diurnal_err [OF assms(1,2)] by simp_all
  have u: "\<bar>u\<bar> \<le> 1" "\<bar>u - (r - 1 / 2) * 2\<bar> \<le> 3 / 4398046511104"
    unfolding u_def using noise_double [OF assms(3,4)] by simp_all
  have "\<bar>c + u\<bar> \<le> 2048" using c(2) u(1) by linarith
  then have "\<bar>fl (c + u) - (c + u)\<bar> \<le> 1 / 4398046511104" by (rule fl_err)
  then have "\<bar>fl (c + u) - (baseTemp (profile_of name)
         + sin (2 * pi * (real_of_int hour - 6) / 24) * tempRange (profile_of name)
         + (r - 1 / 2) * 2)\<bar> \<le> 150 / 4398046511104"
    using c(1) u(2) by linarith
  also have "150 / 4398046511104 \<le> (1 / 10 ^ 9 :: real)" by simp
  finally show ?thesis unfolding c_def u_def .
qed

lemma hourFactor_six_hourly:
  assumes "hour \<in> {0, 6, 12, 18}"
  shows "\<exists>e :: int. sin (2 * pi * (real_of_int hour - 6) / 24) = real_of_int e \<and> - 1 \<le> e \<and> e \<le> 1"
proof -
  consider "hour = 0" | "hour = 6" | "hour = 12" | "hour = 18" using assms by auto
  then show ?thesis
  proof cases
    case 1
    have "2 * pi * (real_of_int 0 - 6) / 24 = - (pi / 2)" by simp
    then have "sin (2 * pi * (real_of_int 0 - 6) / 24) = - 1" by (simp only: sin_minus sin_pi_half)
    then show ?thesis unfolding 1 by (intro exI [of _ "- 1"]) simp
  next
    case 2
    then show ?thesis by (intro exI [of _ 0]) simp
  next
    case 3
    have "2 * pi * (real_of_int 12 - 6) / 24 = pi / 2" by simp
    then have "sin (2 * pi * (real_of_int 12 - 6) / 24) = 1" by (simp only: sin_pi_half)
    then show ?thesis unfolding 3 by (intro exI [of _ 1]) simp
  next
    case 4
    have "2 * pi * (real_of_int 18 - 6) / 24 = pi" by simp
    then have "sin (2 * pi * (real_of_int 18 - 6) / 24) = 0" by (simp only: sin_pi)
    then show ?thesis unfolding 4 by (intro exI [of _ 0]) simp
  qed
qed

lemma profile_of_integral:
  "\<exists>b t :: int. baseTemp (profile_of name) = real_of_int b \<and>
     tempRange (profile_of name) = real_of_int t \<and> 0 \<le> t \<and> t \<le> b"
proof -
  have "\<exists>b t :: int. baseTemp p = real_of_int b \<and> tempRange p = real_of_int t \<and> 0 \<le> t \<and> t \<le> b"
    if mem: "p \<in> {Mumbai, Pune, Alandi, Sangamner, Nagpur}" for p
  proof -
    consider "p = Mumbai" | "p = Pune" | "p = Alandi" | "p = Sangamner" | "p = Nagpur"
      using mem by auto
    then show ?thesis
    proof cases
      case 1 then show ?thesis by (intro exI [of _ 30] exI [of _ 5]) (simp add: Mumbai_def)
    next
      case 2 then show ?thesis by (intro exI [of _ 28] exI [of _ 7]) (simp add: Pune_def)
    next
      case 3 then show ?thesis by (intro exI [of _ 27] exI [of _ 6]) (simp add: Alandi_def)
    next
      case 4 then show ?thesis by (intro exI [of _ 29] exI [of _ 8]) (simp add: Sangamner_def)
    next
      case 5 then show ?thesis by (intro exI [of _ 32] exI [of _ 9]) (simp add: Nagpur_def)
    qed
  qed
  then show ?thesis using profile_of_cases by blast
qed

lemma predicted_temp_exact:
  assumes "day \<in> {0, 1, 2, 3, 4}" "hour \<in> {0, 6, 12, 18}"
  shows "Number_toFixed (fl (fl (baseTemp (profile_of name) + fl (hourFactor hour * tempRange (profile_of name)))
       + fl (real_of_int day * (1 / 2)))) 2 =
    baseTemp (profile_of name)
      + sin (2 * pi * (real_of_int hour - 6) / 24) * tempRange (profile_of name)
      + (1 / 2) * real_of_int day"
proof -
  define c where "c = fl (baseTemp (profile_of name) + fl (hourFactor hour * tempRange (profile_of name)))"
  define tr where "tr = fl (real_of_int day * (1 / 2))"
  from profile_of_integral [of name] obtain b t :: int where
    bt: "baseTemp (profile_of name) = real_of_int b" "tempRange (profile_of name) = real_of_int t"
      "0 \<le> t" "t \<le> b" by blast
  from hourFactor_six_hourly [OF assms(2)] obtain e :: int where
    e: "sin (2 * pi * (real_of_int hour - 6) / 24) = real_of_int e" "- 1 \<le> e" "e \<le> 1" by blast
  have et: "0 \<le> b + e * t"
  proof -
    consider "e = - 1" | "e = 0" | "e = 1" using e(2,3) by linarith
    then show ?thesis using bt(3,4) by cases simp_all
  qed
  have d: "0 \<le> day" "day \<le> 4" using assms(1) by auto
  have hr: "0 \<le> hour" "hour \<le> 23" using assms(2) by auto
  let ?x = "real_of_int b + real_of_int e * real_of_int t + (1 / 2) * real_of_int day"
  have c: "\<bar>c - (real_of_int b + real_of_int e * real_of_int t)\<bar> \<le> 146 / 4398046511104" "\<bar>c\<bar> \<le> 42"
    unfolding c_def using diurnal_err [OF hr, of name] by (simp_all only: bt(1,2) e(1))
  have dd: "0 \<le> real_of_int day" "real_of_int day \<le> 4" using d by simp_all
  then have "\<bar>real_of_int day * (1 / 2)\<bar> \<le> 2048" by linarith
  then have tr: "\<bar>tr - real_of_int day * (1 / 2)\<bar> \<le> 1 / 4398046511104" unfolding tr_def by (rule fl_err)
  have "\<bar>c + tr\<bar> \<le> 2048" using c(2) tr dd unfolding abs_le_iff by linarith
  then have "\<bar>fl (c + tr) - (c + tr)\<bar> \<le> 1 / 4398046511104" by (rule fl_err)
  then have err: "\<bar>fl (c + tr) - ?x\<bar> \<le> 148 / 4398046511104"
    using c(1) tr unfolding abs_le_iff by linarith
  have "Number_toFixed (fl (c + tr)) 2 = ?x"
  proof (rule Number_toFixed_stable [where k = "100 * (b + e * t) + 50 * day"])
    have "0 \<le> real_of_int (b + e * t)" using et by (simp only: of_int_0_le_iff)
    then show "0 \<le> ?x" using d by simp
    show "?x * 10 ^ 2 = real_of_int (100 * (b + e * t) + 50 * day)" by simp
    show "\<bar>fl (c + tr) - ?x\<bar> * 10 ^ 2 < 1 / 2" using err by simp
  qed
  then show ?thesis unfolding c_def tr_def by (simp only: bt(1,2) e(1))
qed

section \<open>The loops, as rows of slots\<close>

lemma run_slots_append:
  "run_slots f (ss @ ts) w =
     (fst (run_slots f ss w) @ fst (run_slots f ts (snd (run_slots f ss w))),
      snd (run_slots f ts (snd (run_slots f ss w))))"
  by (induction ss arbitrary: w) (simp_all add: split_def Let_def)

lemma hour_loop_run:
  "0 \<le> hour \<Longrightarrow> hour_loop h p sid day hour (acc, w) =
     (acc @ fst (run_slots (\<lambda>(d, hr). weather_row h p sid d hr) (map (Pair day) [hour..23]) w),
      snd (run_slots (\<lambda>(d, hr). weather_row h p sid d hr) (map (Pair day) [hour..23]) w))"
proof (induction h p sid day hour "(acc, w)" arbitrary: acc w rule: hour_loop.induct)
  case (1 h p sid day hour weatherData w)
  show ?case
  proof (cases "hour < 24")
    case True
    obtain row w' where rw: "weather_row h p sid day hour w = (row, w')"
      by (cases "weather_row h p sid day hour w")
    have up: "[hour..23] = hour # [hour + 1..23]"
      using True by (simp add: upto_rec1)
    have "hour_loop h p sid day hour (weatherData, w) =
        hour_loop h p sid day (hour + 1) (weatherData @ [row], w')"
      using True rw by (simp add: hour_loop.simps [of h p sid day hour])
    also have "\<dots> = ((weatherData @ [row]) @ fst (run_slots (\<lambda>(d, hr). weather_row h p sid d hr) (map (Pair day) [hour + 1..23]) w'),
      snd (run_slots (\<lambda>(d, hr). weather_row h p sid d hr) (map (Pair day) [hour + 1..23]) w'))"
      using "1.hyps" [OF True rw [symmetric] refl] "1.prems" by simp
    finally show ?thesis
      using rw by (simp add: up split_def Let_def)
  next
    case False
    then have "[hour..23] = []" by simp
    then show ?thesis using False by (simp add: hour_loop.simps [of h p sid day hour])
  qed
qed

lemma day_loop_run:
  "- 1 \<le> day \<Longrightarrow> day_loop h p sid day (acc, w) =
     (acc @ fst (run_slots (\<lambda>(d, hr). weather_row h p sid d hr) (concat (map day_slots (rev [0..day]))) w),
      snd (run_slots (\<lambda>(d, hr). weather_row h p sid d hr) (concat (map day_slots (rev [0..day]))) w))"
proof (induction h p sid day "(acc, w)" arbitrary: acc w rule: day_loop.induct)
  case (1 h p sid day acc w)
  let ?f = "\<lambda>(d, hr). weather_row h p sid d hr"
  show ?case
  proof (cases "0 \<le> day")
    case True
    have up: "rev [0..day] = day # rev [0..day - 1]"
      using True by (simp add: upto_rec2)
    have hl: "hour_loop h p sid day 0 (acc, w) =
        (acc @ fst (run_slots ?f (day_slots day) w), snd (run_slots ?f (day_slots day) w))"
      using hour_loop_run [of 0 h p sid day acc w] by (simp add: day_slots_def)
    have "day_loop h p sid day (acc, w) =
        day_loop h p sid (day - 1) (hour_loop h p sid day 0 (acc, w))"
      using True by (simp add: day_loop.simps [of h p sid day])
    also have "\<dots> = day_loop h p sid (day - 1)
        (acc @ fst (run_slots ?f (day_slots day) w), snd (run_slots ?f (day_slots day) w))"
      by (simp only: hl)
    also have "\<dots> = ((acc @ fst (run_slots ?f (day_slots day) w))
          @ fst (run_slots ?f (concat (map day_slots (rev [0..day - 1]))) (snd (run_slots ?f (day_slots day) w))),
        snd (run_slots ?f (concat (map day_slots (rev [0..day - 1]))) (snd (run_slots ?f (day_slots day) w))))"
      using "1.hyps" [OF True hl] True by simp
    finally show ?thesis
      by (simp add: up run_slots_append)
  next
    case False
    then have "[0..day] = []" by simp
    then show ?thesis using False by (simp add: day_loop.simps [of h p sid day])
  qed
qed

lemma pred_hour_loop_run:
  "pred_hour_loop h p sid day 0 (acc, w) =
     (acc @ fst (run_slots (\<lambda>(d, hr). prediction_row h p sid d hr) (map (Pair day) [0, 6, 12, 18]) w),
      snd (run_slots (\<lambda>(d, hr). prediction_row h p sid d hr) (map (Pair day) [0, 6, 12, 18]) w))"
  by (simp add: pred_hour_loop.simps split_def Let_def)

lemma pred_day_loop_run:
  "pred_day_loop h p sid 0 (acc, w) =
     (acc @ fst (run_slots (\<lambda>(d, hr). prediction_row h p sid d hr) pred_slots w),
      snd (run_slots (\<lambda>(d, hr). prediction_row h p sid d hr) pred_slots w))"
  by (simp add: pred_day_loop.simps pred_hour_loop_run pred_slots_def split_def Let_def)

lemma hist_slots_length: "length hist_slots = 192"
  by (simp add: hist_slots_def day_slots_def upto_rec1)

lemma pred_slots_length: "length pred_slots = 20"
  by (simp add: pred_slots_def)

lemma run_slots_length: "length (fst (run_slots f ss w)) = length ss"
  by (induction ss arbitrary: w) (simp_all add: split_def Let_def)

lemma run_slots_nth:
  assumes "\<And>s w. now_calls (snd (f s w)) = now_calls w + 1"
  shows "i < length ss \<Longrightarrow>
    \<exists>w'. now_calls w' = now_calls w + i \<and> fst (run_slots f ss w) ! i = fst (f (ss ! i) w')"
proof (induction ss arbitrary: w i)
  case Nil
  then show ?case by simp
next
  case (Cons s ss)
  show ?case
  proof (cases i)
    case 0
    then show ?thesis by (auto simp: split_def Let_def)
  next
    case (Suc j)
    then have "j < length ss" using Cons.prems by simp
    from Cons.IH [OF this, of "snd (f s w)"] obtain w' where
      "now_calls w' = now_calls (snd (f s w)) + j"
      "fst (run_slots f ss (snd (f s w))) ! j = fst (f (ss ! j) w')" by blast
    then show ?thesis using Suc assms [of s w] by (auto simp: split_def Let_def)
  qed
qed

lemma run_slots_set:
  "x \<in> set (fst (run_slots f ss w)) \<Longrightarrow> \<exists>s \<in> set ss. \<exists>w'. x = fst (f s w')"
  by (induction ss arbitrary: w) (auto simp: split_def Let_def)

lemma process_station_weather:
  "weatherData (process_station h st s) = weatherData s
     @ fst (run_slots (\<lambda>(d, hr). weather_row h (profile_of (station_name st)) (station_id st) d hr)
         hist_slots (host_state s))"
  using day_loop_run [of 7 h "profile_of (station_name st)" "station_id st" "weatherData s" "host_state s"]
  by (simp add: process_station_def Let_def split_def hist_slots_def)

lemma process_station_predictions:
  "\<exists>w. predictions (process_station h st s) = predictions s
     @ fst (run_slots (\<lambda>(d, hr). prediction_row h (profile_of (station_name st)) (station_id st) d hr)
         pred_slots w)"
proof -
  obtain wd w1 where dl: "day_loop h (profile_of (station_name st)) (station_id st) 7
      (weatherData s, host_state s) = (wd, w1)"
    by (cases "day_loop h (profile_of (station_name st)) (station_id st) 7 (weatherData s, host_state s)")
  show ?thesis
    using pred_day_loop_run [of h "profile_of (station_name st)" "station_id st" "predictions s" w1] dl
    by (auto simp: process_station_def Let_def split_def)
qed

lemma process_station_alerts:
  "\<exists>w. alerts (process_station h st s) =
     fst (station_alerts h (profile_of (station_name st)) (station_id st) (alerts s, w))"
  by (auto simp: process_station_def Let_def split_def)

lemma station_loop_append:
  "station_loop h (xs @ ys) s = station_loop h ys (station_loop h xs s)"
  by (induction xs arbitrary: s) simp_all

lemma station_loop_weather_length:
  "length (weatherData (station_loop h sd s)) = length (weatherData s) + 192 * length sd"
  by (induction sd arbitrary: s)
    (simp_all add: process_station_weather run_slots_length hist_slots_length)

lemma station_loop_predictions_length:
  "length (predictions (station_loop h sd s)) = length (predictions s) + 20 * length sd"
proof (induction sd arbitrary: s)
  case Nil
  then show ?case by simp
next
  case (Cons st sd)
  from process_station_predictions [of h st s] obtain w where
    "predictions (process_station h st s) = predictions s
     @ fst (run_slots (\<lambda>(d, hr). prediction_row h (profile_of (station_name st)) (station_id st) d hr)
         pred_slots w)" by blast
  then show ?case using Cons.IH [of "process_station h st s"]
    by (simp add: run_slots_length pred_slots_length)
qed

lemma station_loop_weather_prefix:
  "\<exists>rest. weatherData (station_loop h sd s) = weatherData s @ rest"
proof (induction sd arbitrary: s)
  case Nil
  then show ?case by simp
next
  case (Cons st sd)
  from Cons.IH [of "process_station h st s"] show ?case
    by (auto simp: process_station_weather)
qed

lemma station_loop_predictions_prefix:
  "\<exists>rest. predictions (station_loop h sd s) = predictions s @ rest"
proof (induction sd arbitrary: s)
  case Nil
  then show ?case by simp
next
  case (Cons st sd)
  from Cons.IH [of "process_station h st s"] process_station_predictions [of h st s]
  show ?case by auto
qed

lemma hist_slots_enum:
  "hist_slots = map (\<lambda>i. (7 - int i div 24, int i mod 24)) [0..<192]"
  by (simp add: hist_slots_def day_slots_def upto_rec1 upt_rec)

lemma hist_slots_nth:
  assumes "0 \<le> day" "day \<le> 7" "0 \<le> hour" "hour \<le> 23"
  shows "hist_slots ! nat ((7 - day) * 24 + hour) = (day, hour)"
proof -
  define n where "n = nat ((7 - day) * 24 + hour)"
  define m where "m = 7 - day"
  have n: "int n = hour + m * 24" "n < 192"
    using assms by (simp_all add: n_def m_def)
  have "int n div 24 = 7 - day"
    unfolding n(1) using assms(3,4) by (simp add: m_def)
  moreover have "int n mod 24 = hour"
    unfolding n(1) using assms(3,4) by simp
  ultimately show ?thesis
    using n(2) unfolding n_def [symmetric] by (simp add: hist_slots_enum)
qed

lemma pred_slots_nth:
  assumes "day \<in> {0, 1, 2, 3, 4}" "hour \<in> {0, 6, 12, 18}"
  shows "pred_slots ! nat (day * 4 + hour div 6) = (day, hour)"
  using assms by (auto simp: pred_slots_def)

lemma weather_row_now: "now_calls (snd (weather_row h p sid d hr w)) = now_calls w + 1"
  by (simp add: weather_row_def Date_now_def Math_random_def Let_def split_def)

lemma prediction_row_now: "now_calls (snd (prediction_row h p sid d hr w)) = now_calls w + 1"
  by (simp add: prediction_row_def Date_now_def Math_random_def Let_def split_def)

lemma station_loop_weather_nth:
  assumes "k < length sd"
  shows "\<exists>w0::world. \<forall>i<192. \<exists>w. now_calls w = now_calls w0 + i \<and>
     weatherData (station_loop h sd s) ! (length (weatherData s) + 192 * k + i) =
       fst (weather_row h (profile_of (station_name (sd ! k))) (station_id (sd ! k))
         (fst (hist_slots ! i)) (snd (hist_slots ! i)) w)"
proof -
  let ?st = "sd ! k"
  let ?f = "\<lambda>(d, hr). weather_row h (profile_of (station_name ?st)) (station_id ?st) d hr"
  define s1 where "s1 = station_loop h (take k sd) s"
  have sd: "sd = take k sd @ [?st] @ drop (Suc k) sd"
    using assms by (simp add: id_take_nth_drop)
  have "station_loop h sd s = station_loop h (drop (Suc k) sd) (process_station h ?st s1)"
    by (subst sd) (simp add: station_loop_append s1_def)
  then obtain rest where wd: "weatherData (station_loop h sd s) =
      (weatherData s1 @ fst (run_slots ?f hist_slots (host_state s1))) @ rest"
    using station_loop_weather_prefix [of h "drop (Suc k) sd" "process_station h ?st s1"]
    by (auto simp: process_station_weather)
  have len: "length (weatherData s1) = length (weatherData s) + 192 * k"
    using assms by (simp add: s1_def station_loop_weather_length)
  show ?thesis
  proof (rule exI [of _ "host_state s1"], intro allI impI)
    fix i :: nat assume i: "i < 192"
    have "weatherData (station_loop h sd s) ! (length (weatherData s) + 192 * k + i) =
        fst (run_slots ?f hist_slots (host_state s1)) ! i"
      using i len by (simp add: wd nth_append run_slots_length hist_slots_length)
    moreover from run_slots_nth [of ?f i hist_slots "host_state s1"] i
    obtain w where "now_calls w = now_calls (host_state s1) + i"
      "fst (run_slots ?f hist_slots (host_state s1)) ! i = fst (?f (hist_slots ! i) w)"
      by (auto simp: weather_row_now hist_slots_length split_def)
    ultimately show "\<exists>w. now_calls w = now_calls (host_state s1) + i \<and>
     weatherData (station_loop h sd s) ! (length (weatherData s) + 192 * k + i) =
       fst (weather_row h (profile_of (station_name ?st)) (station_id ?st)
         (fst (hist_slots ! i)) (snd (hist_slots ! i)) w)"
      by (auto simp: split_def)
  qed
qed

lemma station_loop_predictions_nth:
  assumes "k < length sd" "i < 20"
  shows "\<exists>w. predictions (station_loop h sd s) ! (length (predictions s) + 20 * k + i) =
       fst (prediction_row h (profile_of (station_name (sd ! k))) (station_id (sd ! k))
         (fst (pred_slots ! i)) (snd (pred_slots ! i)) w)"
proof -
  let ?st = "sd ! k"
  let ?f = "\<lambda>(d, hr). prediction_row h (profile_of (station_name ?st)) (station_id ?st) d hr"
  define s1 where "s1 = station_loop h (take k sd) s"
  have sd: "sd = take k sd @ [?st] @ drop (Suc k) sd"
    using assms by (simp add: id_take_nth_drop)
  have "station_loop h sd s = station_loop h (drop (Suc k) sd) (process_station h ?st s1)"
    by (subst sd) (simp add: station_loop_append s1_def)
  then obtain rest w1 where pr: "predictions (station_loop h sd s) =
      (predictions s1 @ fst (run_slots ?f pred_slots w1)) @ rest"
    using station_loop_predictions_prefix [of h "drop (Suc k) sd" "process_station h ?st s1"]
      process_station_predictions [of h ?st s1]
    by auto
  have len: "length (predictions s1) = length (predictions s) + 20 * k"
    using assms by (simp add: s1_def station_loop_predictions_length)
  have "predictions (station_loop h sd s) ! (length (predictions s) + 20 * k + i) =
      fst (run_slots ?f pred_slots w1) ! i"
    using assms len by (simp add: pr nth_append run_slots_length pred_slots_length)
  moreover from run_slots_nth [of ?f i pred_slots w1] assms
  obtain w where "fst (run_slots ?f pred_slots w1) ! i = fst (?f (pred_slots ! i) w)"
    by (auto simp: prediction_row_now pred_slots_length split_def)
  ultimately show ?thesis by (auto simp: split_def)
qed

lemma weather_row_timestamp:
  "timestamp (fst (weather_row h p sid d hr w)) =
     date_now h (now_calls w) - (d * 24 + (23 - hr)) * 3600000"
  by (simp add: weather_row_def Date_now_def Math_random_def Let_def split_def)

lemma weather_row_station: "data_station_id (fst (weather_row h p sid d hr w)) = sid"
  by (simp add: weather_row_def Let_def split_def)

lemma weather_row_humidity:
  "20 \<le> data_humidity (fst (weather_row h p sid d hr w)) \<and>
   data_humidity (fst (weather_row h p sid d hr w)) \<le> 95"
proof -
  have "20 \<le> Number_toFixed (max 20 (min 95 x)) 2 \<and> Number_toFixed (max 20 (min 95 x)) 2 \<le> 95"
    for x :: real
    by (rule Number_toFixed_between [of 20 2 2000 95 9500]) simp_all
  then show ?thesis by (simp add: weather_row_def Let_def split_def)
qed

lemma weather_row_wind: "0 \<le> wind_speed (fst (weather_row h p sid d hr w))"
  by (simp add: weather_row_def Let_def split_def Number_toFixed_ge0)

lemma prediction_row_confidence_bounds:
  "75 \<le> confidence (fst (prediction_row h p sid d hr w)) \<and>
   confidence (fst (prediction_row h p sid d hr w)) \<le> 98"
proof -
  have "75 \<le> Number_toFixed (max 75 (min 98 x)) 2 \<and> Number_toFixed (max 75 (min 98 x)) 2 \<le> 98"
    for x :: real
    by (rule Number_toFixed_between [of 75 2 7500 98 9800]) simp_all
  then show ?thesis by (simp add: prediction_row_def Let_def split_def)
qed

lemma prediction_row_station: "pred_station_id (fst (prediction_row h p sid d hr w)) = sid"
  by (simp add: prediction_row_def Let_def split_def)

subsection \<open>The rows of a whole run\<close>

lemma generate_weather_length:
  "length (weatherData (generate h sd)) = 192 * length sd"
  by (simp add: generate_def station_loop_weather_length)

lemma generate_predictions_length:
  "length (predictions (generate h sd)) = 20 * length sd"
  by (simp add: generate_def station_loop_predictions_length)

lemma generate_weather_row:
  assumes "k < length sd" "0 \<le> day" "day \<le> 7" "0 \<le> hour" "hour \<le> 23"
  shows "\<exists>w. weatherData (generate h sd) ! (192 * k + nat ((7 - day) * 24 + hour)) =
     fst (weather_row h (profile_of (station_name (sd ! k))) (station_id (sd ! k)) day hour w)"
proof -
  let ?s = "\<lparr>weatherData = [], predictions = [], alerts = [],
        host_state = \<lparr>random_calls = 0, now_calls = 0\<rparr>\<rparr>"
  have i: "nat ((7 - day) * 24 + hour) < 192" using assms by simp
  from station_loop_weather_nth [OF assms(1), of h ?s] i
  obtain w where "weatherData (station_loop h sd ?s) ! (length (weatherData ?s) + 192 * k
      + nat ((7 - day) * 24 + hour)) =
       fst (weather_row h (profile_of (station_name (sd ! k))) (station_id (sd ! k))
         (fst (hist_slots ! nat ((7 - day) * 24 + hour)))
         (snd (hist_slots ! nat ((7 - day) * 24 + hour))) w)"
    by blast
  moreover have "hist_slots ! nat ((7 - day) * 24 + hour) = (day, hour)"
    using assms(2-5) by (rule hist_slots_nth)
  ultimately show ?thesis
    by (simp add: generate_def) blast
qed

lemma generate_prediction_row:
  assumes "k < length sd" "day \<in> {0, 1, 2, 3, 4}" "hour \<in> {0, 6, 12, 18}"
  shows "\<exists>w. predictions (generate h sd) ! (20 * k + nat (day * 4 + hour div 6)) =
     fst (prediction_row h (profile_of (station_name (sd ! k))) (station_id (sd ! k)) day hour w)"
proof -
  let ?s = "\<lparr>weatherData = [], predictions = [], alerts = [],
        host_state = \<lparr>random_calls = 0, now_calls = 0\<rparr>\<rparr>"
  have i: "nat (day * 4 + hour div 6) < 20" using assms by auto
  from station_loop_predictions_nth [OF assms(1) i, of h ?s]
  obtain w where "predictions (station_loop h sd ?s) ! (length (predictions ?s) + 20 * k
      + nat (day * 4 + hour div 6)) =
       fst (prediction_row h (profile_of (station_name (sd ! k))) (station_id (sd ! k))
         (fst (pred_slots ! nat (day * 4 + hour div 6)))
         (snd (pred_slots ! nat (day * 4 + hour div 6))) w)"
    by blast
  moreover have "pred_slots ! nat (day * 4 + hour div 6) = (day, hour)"
    using assms(2,3) by (rule pred_slots_nth)
  ultimately show ?thesis
    by (simp add: generate_def) blast
qed

lemma generate_weather_station:
  assumes "k < length sd" "i < 192"
  shows "data_station_id (weatherData (generate h sd) ! (192 * k + i)) = station_id (sd ! k)"
proof -
  let ?s = "\<lparr>weatherData = [], predictions = [], alerts = [],
        host_state = \<lparr>random_calls = 0, now_calls = 0\<rparr>\<rparr>"
  from station_loop_weather_nth [OF assms(1), of h ?s] assms(2)
  obtain w where "weatherData (station_loop h sd ?s) ! (length (weatherData ?s) + 192 * k + i) =
       fst (weather_row h (profile_of (station_name (sd ! k))) (station_id (sd ! k))
         (fst (hist_slots ! i)) (snd (hist_slots ! i)) w)"
    by blast
  then show ?thesis
    by (simp add: generate_def weather_row_station)
qed

lemma station_loop_weather_set:
  "row \<in> set (weatherData (station_loop h sd s)) \<Longrightarrow>
     row \<in> set (weatherData s) \<or>
     (\<exists>st\<in>set sd. \<exists>d hr w. row = fst (weather_row h (profile_of (station_name st)) (station_id st) d hr w))"
proof (induction sd arbitrary: s)
  case Nil
  then show ?case by simp
next
  case (Cons st sd)
  from Cons.IH [of "process_station h st s"] Cons.prems
  consider "row \<in> set (weatherData (process_station h st s))"
    | "\<exists>st\<in>set sd. \<exists>d hr w. row = fst (weather_row h (profile_of (station_name st)) (station_id st) d hr w)"
    by auto
  then show ?case
  proof cases
    case 1
    then show ?thesis
      by (auto simp: process_station_weather split_def dest!: run_slots_set)
  next
    case 2
    then show ?thesis by auto
  qed
qed

lemma station_loop_predictions_set:
  "row \<in> set (predictions (station_loop h sd s)) \<Longrightarrow>
     row \<in> set (predictions s) \<or>
     (\<exists>st\<in>set sd. \<exists>d hr w. row = fst (prediction_row h (profile_of (station_name st)) (station_id st) d hr w))"
proof (induction sd arbitrary: s)
  case Nil
  then show ?case by simp
next
  case (Cons st sd)
  from Cons.IH [of "process_station h st s"] Cons.prems
  consider "row \<in> set (predictions (process_station h st s))"
    | "\<exists>st\<in>set sd. \<exists>d hr w. row = fst (prediction_row h (profile_of (station_name st)) (station_id st) d hr w)"
    by auto
  then show ?case
  proof cases
    case 1
    from process_station_predictions [of h st s] obtain w0 where
      "predictions (process_station h st s) = predictions s
        @ fst (run_slots (\<lambda>(d, hr). prediction_row h (profile_of (station_name st)) (station_id st) d hr)
          pred_slots w0)" by blast
    with 1 consider "row \<in> set (predictions s)"
      | "row \<in> set (fst (run_slots (\<lambda>(d, hr). prediction_row h (profile_of (station_name st)) (station_id st) d hr)
          pred_slots w0))" by auto
    then show ?thesis
    proof cases
      case 1
      then show ?thesis by simp
    next
      case 2
      from run_slots_set [OF this] obtain sl w' where
        "row = fst ((\<lambda>(d, hr). prediction_row h (profile_of (station_name st)) (station_id st) d hr) sl w')"
        by blast
      then have "row = fst (prediction_row h (profile_of (station_name st)) (station_id st) (fst sl) (snd sl) w')"
        by (simp add: split_def)
      then show ?thesis by auto
    qed
  next
    case 2
    then show ?thesis by auto
  qed
qed

section \<open>Properties of the specification\<close>

text \<open>
  C4. A run over five stations produces exactly \<open>5 * 8 * 24 = 960\<close> observation rows.
  The rows of the station at position \<open>k\<close> are the 192 rows from index \<open>192 * k\<close> on:
  they carry the id of that station. The row of day \<open>day\<close> (7 down to 0, both
  included: eight days) and hour \<open>hour\<close> (0 to 23) is at position
  \<open>(7 - day) * 24 + hour\<close> among them and has the time stamp of that slot.
\<close>

theorem historical_row_count:
  assumes "length stationsData = 5"
  shows "length (weatherData (generate h stationsData)) = 5 * 8 * 24 \<and>
    (\<forall>k<5. \<forall>i<192.
       data_station_id (weatherData (generate h stationsData) ! (192 * k + i))
         = station_id (stationsData ! k)) \<and>
    (\<forall>k<5. \<forall>day\<in>{0..7}. \<forall>hour\<in>{0..23}. \<exists>n.
       data_station_id (weatherData (generate h stationsData) ! (192 * k + nat ((7 - day) * 24 + hour)))
         = station_id (stationsData ! k) \<and>
       timestamp (weatherData (generate h stationsData) ! (192 * k + nat ((7 - day) * 24 + hour)))
         = date_now h n - (day * 24 + (23 - hour)) * 3600000)"
proof (intro conjI allI impI ballI)
  show "length (weatherData (generate h stationsData)) = 5 * 8 * 24"
    using assms by (simp add: generate_weather_length)
next
  fix k i :: nat
  assume "k < 5" "i < 192"
  then show "data_station_id (weatherData (generate h stationsData) ! (192 * k + i))
      = station_id (stationsData ! k)"
    using assms by (simp add: generate_weather_station)
next
  fix k :: nat and day hour :: int
  assume "k < 5" "day \<in> {0..7}" "hour \<in> {0..23}"
  then obtain w where "weatherData (generate h stationsData) ! (192 * k + nat ((7 - day) * 24 + hour)) =
     fst (weather_row h (profile_of (station_name (stationsData ! k))) (station_id (stationsData ! k)) day hour w)"
    using generate_weather_row [of k stationsData day hour h] assms by auto
  then show "\<exists>n.
       data_station_id (weatherData (generate h stationsData) ! (192 * k + nat ((7 - day) * 24 + hour)))
         = station_id (stationsData ! k) \<and>
       timestamp (weatherData (generate h stationsData) ! (192 * k + nat ((7 - day) * 24 + hour)))
         = date_now h n - (day * 24 + (23 - hour)) * 3600000"
    by (auto simp: weather_row_station weather_row_timestamp)
qed

theorem historical_row_count_witness:
  "length (weatherData (generate (steady_host (1 / 2) 1700000000000)
     [pune_station, pune_station, pune_station, pune_station, pune_station])) = 960"
  using historical_row_count [of "[pune_station, pune_station, pune_station, pune_station, pune_station]"
    "steady_host (1 / 2) 1700000000000"]
  by simp

text \<open>
  C2. When every random number lies in \<open>[0, 1)\<close>, as \<^verbatim>\<open>Math.random()\<close> promises,
  every observation row of a run has its humidity in \<open>[20, 95]\<close>, a wind speed of at
  least 0 and a precipitation of at least 0, and every prediction row has its confidence
  in \<open>[75, 98]\<close>, whatever the stations are.
\<close>

theorem generated_ranges:
  assumes "\<forall>i. 0 \<le> math_random h i \<and> math_random h i < 1"
  shows "(\<forall>row\<in>set (weatherData (generate h stationsData)).
            20 \<le> data_humidity row \<and> data_humidity row \<le> 95 \<and>
            0 \<le> wind_speed row \<and> 0 \<le> precipitation row) \<and>
         (\<forall>row\<in>set (predictions (generate h stationsData)).
            75 \<le> confidence row \<and> confidence row \<le> 98)"
proof (rule conjI; rule ballI)
  fix row assume "row \<in> set (weatherData (generate h stationsData))"
  then have "row \<in> set (weatherData (station_loop h stationsData
      \<lparr>weatherData = [], predictions = [], alerts = [],
       host_state = \<lparr>random_calls = 0, now_calls = 0\<rparr>\<rparr>))"
    by (simp add: generate_def)
  from station_loop_weather_set [OF this] obtain st :: station and d hr w where
    row: "row = fst (weather_row h (profile_of (station_name st)) (station_id st) d hr w)"
    by auto
  have "\<forall>i. 0 \<le> math_random h i" using assms by simp
  then show "20 \<le> data_humidity row \<and> data_humidity row \<le> 95 \<and>
            0 \<le> wind_speed row \<and> 0 \<le> precipitation row"
    unfolding row using weather_row_humidity weather_row_wind weather_row_precipitation by blast
next
  fix row assume "row \<in> set (predictions (generate h stationsData))"
  then have "row \<in> set (predictions (station_loop h stationsData
      \<lparr>weatherData = [], predictions = [], alerts = [],
       host_state = \<lparr>random_calls = 0, now_calls = 0\<rparr>\<rparr>))"
    by (simp add: generate_def)
  from station_loop_predictions_set [OF this] obtain st :: station and d hr w where
    row: "row = fst (prediction_row h (profile_of (station_name st)) (station_id st) d hr w)"
    by auto
  show "75 \<le> confidence row \<and> confidence row \<le> 98"
    unfolding row by (rule prediction_row_confidence_bounds)
qed

theorem generated_ranges_witness:
  "20 \<le> data_humidity (weatherData (generate (steady_host (1 / 2) 0) [pune_station]) ! 0) \<and>
   data_humidity (weatherData (generate (steady_host (1 / 2) 0) [pune_station]) ! 0) \<le> 95 \<and>
   0 \<le> wind_speed (weatherData (generate (steady_host (1 / 2) 0) [pune_station]) ! 0) \<and>
   0 \<le> precipitation (weatherData (generate (steady_host (1 / 2) 0) [pune_station]) ! 0) \<and>
   75 \<le> confidence (predictions (generate (steady_host (1 / 2) 0) [pune_station]) ! 0) \<and>
   confidence (predictions (generate (steady_host (1 / 2) 0) [pune_station]) ! 0) \<le> 98"
proof -
  let ?g = "generate (steady_host (1 / 2) 0) [pune_station]"
  have "\<forall>i. 0 \<le> math_random (steady_host (1 / 2) 0) i \<and> math_random (steady_host (1 / 2) 0) i < 1"
    by (simp add: steady_host_def)
  moreover have "weatherData ?g ! 0 \<in> set (weatherData ?g)"
    by (rule nth_mem) (simp add: generate_weather_length)
  moreover have "predictions ?g ! 0 \<in> set (predictions ?g)"
    by (rule nth_mem) (simp add: generate_predictions_length)
  ultimately show ?thesis
    using generated_ranges [of "steady_host (1 / 2) 0" "[pune_station]"] by blast
qed

lemma hist_slots_offset:
  assumes "i < 192"
  shows "fst (hist_slots ! i) * 24 + (23 - snd (hist_slots ! i)) = 191 - int i"
proof -
  have "hist_slots ! i = (7 - int i div 24, int i mod 24)"
    using assms by (simp add: hist_slots_enum)
  moreover have "int i div 24 * 24 + int i mod 24 = int i"
    by simp
  ultimately show ?thesis
    by (simp only: fst_conv snd_conv left_diff_distrib)
qed

text \<open>
  C5. Within a station the observations are emitted oldest first: of two rows that
  follow each other in the block of one station, the first has the strictly smaller
  time stamp. The clock is read once for each row; it is assumed not to run backwards.
\<close>

theorem timestamps_increase:
  assumes "\<forall>m n. m \<le> n \<longrightarrow> date_now h m \<le> date_now h n"
    and "k < length stationsData" and "Suc i < 192"
  shows "timestamp (weatherData (generate h stationsData) ! (192 * k + i))
         < timestamp (weatherData (generate h stationsData) ! (192 * k + Suc i)) \<and>
    data_station_id (weatherData (generate h stationsData) ! (192 * k + i))
      = station_id (stationsData ! k) \<and>
    data_station_id (weatherData (generate h stationsData) ! (192 * k + Suc i))
      = station_id (stationsData ! k)"
proof -
  let ?s = "\<lparr>weatherData = [], predictions = [], alerts = [],
        host_state = \<lparr>random_calls = 0, now_calls = 0\<rparr>\<rparr>"
  let ?wd = "weatherData (generate h stationsData)"
  let ?p = "profile_of (station_name (stationsData ! k))"
  let ?sid = "station_id (stationsData ! k)"
  from station_loop_weather_nth [OF assms(2), of h ?s] obtain w0 :: world where
    rows: "\<And>j. j < 192 \<Longrightarrow> \<exists>w. now_calls w = now_calls w0 + j \<and>
      ?wd ! (192 * k + j) = fst (weather_row h ?p ?sid (fst (hist_slots ! j)) (snd (hist_slots ! j)) w)"
    by (auto simp: generate_def)
  from rows [of i] assms(3) obtain w where
    w: "now_calls w = now_calls w0 + i"
      "?wd ! (192 * k + i) = fst (weather_row h ?p ?sid (fst (hist_slots ! i)) (snd (hist_slots ! i)) w)"
    by auto
  from rows [of "Suc i"] assms(3) obtain w' where
    w': "now_calls w' = now_calls w0 + Suc i"
      "?wd ! (192 * k + Suc i) =
         fst (weather_row h ?p ?sid (fst (hist_slots ! Suc i)) (snd (hist_slots ! Suc i)) w')"
    by auto
  have t: "timestamp (?wd ! (192 * k + i)) = date_now h (now_calls w0 + i) - (191 - int i) * 3600000"
    using assms(3) by (simp add: w weather_row_timestamp hist_slots_offset)
  have t': "timestamp (?wd ! (192 * k + Suc i)) =
      date_now h (now_calls w0 + Suc i) - (191 - int (Suc i)) * 3600000"
    using assms(3) by (simp only: w' weather_row_timestamp hist_slots_offset)
  have "date_now h (now_calls w0 + i) \<le> date_now h (now_calls w0 + Suc i)"
    using assms(1) by simp
  then have "timestamp (?wd ! (192 * k + i)) < timestamp (?wd ! (192 * k + Suc i))"
    unfolding t t' by simp
  moreover have "data_station_id (?wd ! (192 * k + i)) = ?sid"
    by (simp only: w(2) weather_row_station)
  moreover have "data_station_id (?wd ! (192 * k + Suc i)) = ?sid"
    by (simp only: w'(2) weather_row_station)
  ultimately show ?thesis
    by (intro conjI)
qed

theorem timestamps_increase_witness:
  "timestamp (weatherData (generate (steady_host (1 / 2) 1700000000000) [pune_station]) ! 0)
     < timestamp (weatherData (generate (steady_host (1 / 2) 1700000000000) [pune_station]) ! 1)"
  using timestamps_increase [of "steady_host (1 / 2) 1700000000000" 0 "[pune_station]" 0]
  by (simp add: steady_host_def)

lemma clamp_near:
  fixes x y :: real
  assumes "\<bar>x - y\<bar> \<le> e"
  shows "\<bar>max lo (min hi x) - max lo (min hi y)\<bar> \<le> e"
  using assms by (simp add: max_def min_def abs_le_iff)

text \<open>
  C3. For the station at position \<open>k\<close>, every day from 7 down to 0 and every hour from 0
  to 23, the variable \<^verbatim>\<open>temp\<close> of the row is the sum, on doubles, of
  \<^verbatim>\<open>profile.baseTemp + (hourFactor * profile.tempRange)\<close> and of the noise
  \<^verbatim>\<open>(Math.random() - 0.5) * 2\<close>, a double of \<open>[-1, 1]\<close> made from one random number of
  the source. As a real number, \<^verbatim>\<open>temp\<close> is
  \<open>baseTemp + sin (2 * pi * (hour - 6) / 24) * tempRange + u\<close> with \<open>u = (r - 0.5) * 2\<close>
  in \<open>[-1, 1)\<close>, up to the rounding of the double operations, which is below
  \<open>10\<^sup>-\<^sup>9\<close>. The row holds \<^verbatim>\<open>temp.toFixed(2)\<close>: \<^verbatim>\<open>temp\<close> at two decimals.
\<close>

theorem observation_temperature:
  assumes "\<forall>i. 0 \<le> math_random h i \<and> math_random h i < 1"
    and "k < length stationsData" and "0 \<le> day" "day \<le> 7" and "0 \<le> hour" "hour \<le> 23"
  shows "\<exists>i.
    - 1 \<le> fl (fl (math_random h i - 1 / 2) * 2) \<and> fl (fl (math_random h i - 1 / 2) * 2) \<le> 1 \<and>
    temperature (weatherData (generate h stationsData) ! (192 * k + nat ((7 - day) * 24 + hour))) =
      Number_toFixed
        (fl (fl (baseTemp (profile_of (station_name (stationsData ! k)))
                + fl (hourFactor hour * tempRange (profile_of (station_name (stationsData ! k)))))
            + fl (fl (math_random h i - 1 / 2) * 2))) 2 \<and>
    \<bar>fl (fl (baseTemp (profile_of (station_name (stationsData ! k)))
                + fl (hourFactor hour * tempRange (profile_of (station_name (stationsData ! k)))))
            + fl (fl (math_random h i - 1 / 2) * 2))
       - (baseTemp (profile_of (station_name (stationsData ! k)))
          + sin (2 * pi * (real_of_int hour - 6) / 24) * tempRange (profile_of (station_name (stationsData ! k)))
          + (math_random h i - 1 / 2) * 2)\<bar> \<le> 1 / 10 ^ 9 \<and>
    - 1 \<le> (math_random h i - 1 / 2) * 2 \<and> (math_random h i - 1 / 2) * 2 < 1 \<and>
    \<bar>temperature (weatherData (generate h stationsData) ! (192 * k + nat ((7 - day) * 24 + hour)))
       - (baseTemp (profile_of (station_name (stationsData ! k)))
          + sin (2 * pi * (real_of_int hour - 6) / 24) * tempRange (profile_of (station_name (stationsData ! k)))
          + (math_random h i - 1 / 2) * 2)\<bar> \<le> 1 / 200 + 1 / 10 ^ 9"
proof -
  from generate_weather_row [OF assms(2-6), of h] obtain w where
    row: "weatherData (generate h stationsData) ! (192 * k + nat ((7 - day) * 24 + hour)) =
     fst (weather_row h (profile_of (station_name (stationsData ! k)))
       (station_id (stationsData ! k)) day hour w)"
    by blast
  define r where "r = math_random h (random_calls w)"
  define name where "name = station_name (stationsData ! k)"
  define temp where "temp = fl (fl (baseTemp (profile_of name) + fl (hourFactor hour * tempRange (profile_of name)))
            + fl (fl (r - 1 / 2) * 2))"
  define x where "x = baseTemp (profile_of name)
          + sin (2 * pi * (real_of_int hour - 6) / 24) * tempRange (profile_of name) + (r - 1 / 2) * 2"
  have r: "0 \<le> r" "r < 1" using assms(1) by (simp_all add: r_def)
  have n: "- 1 \<le> fl (fl (r - 1 / 2) * 2)" "fl (fl (r - 1 / 2) * 2) \<le> 1"
    using noise_double(1) [OF r] by linarith+
  have t: "temperature (weatherData (generate h stationsData) ! (192 * k + nat ((7 - day) * 24 + hour)))
      = Number_toFixed temp 2"
    unfolding row weather_row_temperature temp_def r_def name_def ..
  have e: "\<bar>temp - x\<bar> \<le> 1 / 10 ^ 9"
    unfolding temp_def x_def by (rule observation_temp_err [OF assms(5,6) r])
  have "\<bar>Number_toFixed temp 2 - temp\<bar> \<le> 1 / 200" by (rule Number_toFixed_near)
  then have s: "\<bar>Number_toFixed temp 2 - x\<bar> \<le> 1 / 200 + 1 / 10 ^ 9" using e by linarith
  show ?thesis
    unfolding t using n noise_range(1,2) [OF r] e s
    unfolding temp_def x_def r_def name_def
    by - (intro exI [of _ "random_calls w"] conjI; (assumption | rule refl))
qed

theorem observation_temperature_witness:
  "temperature (weatherData (generate (steady_host (11258999068427 / 4503599627370496) 0) [pune_station]) ! 6)
     = 27"
proof -
  define c :: real where "c = 11258999068427 / 4503599627370496"
  have p: "profile_of (station_name pune_station) = Pune"
    by (simp add: profile_of_def climateProfiles_def pune_station_def)
  have c01: "\<forall>i. 0 \<le> math_random (steady_host c 0) i \<and> math_random (steady_host c 0) i < 1"
    by (simp add: steady_host_def c_def)
  from observation_temperature [OF c01, of 0 "[pune_station]" 7 6]
  have "temperature (weatherData (generate (steady_host c 0) [pune_station]) ! 6)
     = Number_toFixed (fl (fl (baseTemp Pune + fl (hourFactor 6 * tempRange Pune)) + fl (fl (c - 1 / 2) * 2))) 2"
    by (auto simp add: p steady_host_def)
  then show ?thesis
    unfolding c_def draw_temp draw_temp_stored .
qed

lemma generate_confidence:
  assumes "k < length sd" "day \<in> {0, 1, 2, 3, 4}" "hour \<in> {0, 6, 12, 18}"
  shows "\<exists>i. confidence (predictions (generate h sd) ! (20 * k + nat (day * 4 + hour div 6))) =
     Number_toFixed (max 75 (min 98 (fl (95 - real_of_int day * 3
       + fl (fl (math_random h i - 1 / 2) * 4))))) 2"
proof -
  from generate_prediction_row [OF assms, of h] obtain w where
    "predictions (generate h sd) ! (20 * k + nat (day * 4 + hour div 6)) =
     fst (prediction_row h (profile_of (station_name (sd ! k))) (station_id (sd ! k)) day hour w)"
    by blast
  then show ?thesis
    by (simp only: prediction_row_confidence) blast
qed

lemma confidence_no_noise:
  assumes "day \<in> {0, 1, 2, 3, 4}"
  shows "Number_toFixed (max 75 (min 98 (fl (95 - real_of_int day * 3 + fl (fl (1 / 2 - 1 / 2) * 4))))) 2
    = 95 - 3 * real_of_int day"
proof -
  have d: "0 \<le> day" "day \<le> 4" using assms by auto
  have "fl (real_of_int (95 - day * 3)) = real_of_int (95 - day * 3)"
    using d by (intro fl_of_int) simp
  then have f: "fl (95 - real_of_int day * 3) = 95 - 3 * real_of_int day" by simp
  have "Number_toFixed (95 - 3 * real_of_int day) 2 = 95 - 3 * real_of_int day"
    using d by (intro Number_toFixed_exact [where k = "9500 - 300 * day"]) simp_all
  moreover have "max 75 (min 98 (95 - 3 * real_of_int day)) = 95 - 3 * real_of_int day"
    using d by simp
  ultimately show ?thesis by (simp add: fl_0 f)
qed

lemma confidence_double:
  assumes "day \<in> {0, 1, 2, 3, 4}" "0 \<le> r" "r < 1"
  shows "\<bar>fl (95 - real_of_int day * 3 + fl (fl (r - 1 / 2) * 4))
      - (95 - 3 * real_of_int day + (r - 1 / 2) * 4)\<bar> \<le> 1 / 10 ^ 9"
    and "93 - 3 * real_of_int day \<le> fl (95 - real_of_int day * 3 + fl (fl (r - 1 / 2) * 4))"
    and "fl (95 - real_of_int day * 3 + fl (fl (r - 1 / 2) * 4)) \<le> 97 - 3 * real_of_int day"
proof -
  define n where "n = fl (fl (r - 1 / 2) * 4)"
  have d: "0 \<le> real_of_int day" "real_of_int day \<le> 4" using assms(1) by auto
  have n: "\<bar>n\<bar> \<le> 2" "\<bar>n - (r - 1 / 2) * 4\<bar> \<le> 5 / 4398046511104"
    unfolding n_def using noise_double(3,4) [OF assms(2,3)] by simp_all
  have b: "\<bar>95 - real_of_int day * 3 + n\<bar> \<le> 2048" using d n(1) by linarith
  then have "\<bar>fl (95 - real_of_int day * 3 + n) - (95 - real_of_int day * 3 + n)\<bar> \<le> 1 / 4398046511104"
    by (rule fl_err)
  then have "\<bar>fl (95 - real_of_int day * 3 + n) - (95 - 3 * real_of_int day + (r - 1 / 2) * 4)\<bar>
      \<le> 6 / 4398046511104"
    using n(2) by argo
  also have "6 / 4398046511104 \<le> (1 / 10 ^ 9 :: real)" by simp
  finally show "\<bar>fl (95 - real_of_int day * 3 + fl (fl (r - 1 / 2) * 4))
      - (95 - 3 * real_of_int day + (r - 1 / 2) * 4)\<bar> \<le> 1 / 10 ^ 9"
    unfolding n_def .
  have "real_of_int (93 - 3 * day) \<le> 95 - real_of_int day * 3 + n" using n(1) by simp
  from fl_ge_int [OF b this]
  show "93 - 3 * real_of_int day \<le> fl (95 - real_of_int day * 3 + fl (fl (r - 1 / 2) * 4))"
    unfolding n_def by simp
  have "95 - real_of_int day * 3 + n \<le> real_of_int (97 - 3 * day)" using n(1) by simp
  from fl_le_int [OF b this]
  show "fl (95 - real_of_int day * 3 + fl (fl (r - 1 / 2) * 4)) \<le> 97 - 3 * real_of_int day"
    unfolding n_def by simp
qed

text \<open>
  C6. For the station at position \<open>k\<close>, every prediction day \<open>day\<close> of 0..4 and every hour
  of 0, 6, 12, 18, the confidence of the row is \<open>clamp (95 - 3 * day + u, 75, 98)\<close> for a
  \<open>u\<close> of \<open>[-2, 2]\<close>. In detail: the noise \<^verbatim>\<open>(Math.random() - 0.5) * 4\<close> is a double of
  \<open>[-2, 2]\<close> made from one random number \<open>r\<close> of the source; the row holds the clamped
  double sum \<^verbatim>\<open>95 - (day * 3) + noise\<close> at two decimals (\<^verbatim>\<open>toFixed(2)\<close>); the double sum is
  \<open>95 - 3 * day + (r - 0.5) * 4\<close> up to the rounding of the double operations, which is
  below \<open>10\<^sup>-\<^sup>9\<close>. When the noise is zero (every random number is 0.5), the confidence is
  \<open>95 - 3 * day\<close> exactly: 95 on day 0, 83 on day 4, and not larger on a later day
  \<open>day'\<close> than on \<open>day\<close>.
\<close>

theorem prediction_confidence:
  assumes "\<forall>i. 0 \<le> math_random h i \<and> math_random h i < 1"
    and "k < length stationsData" and "day \<in> {0, 1, 2, 3, 4}" and "hour \<in> {0, 6, 12, 18}"
    and "day' \<in> {0, 1, 2, 3, 4}" and "hour' \<in> {0, 6, 12, 18}" and "day \<le> day'"
  shows "(\<exists>u. - 2 \<le> u \<and> u \<le> 2 \<and>
      confidence (predictions (generate h stationsData) ! (20 * k + nat (day * 4 + hour div 6))) =
        max 75 (min 98 (95 - 3 * real_of_int day + u))) \<and>
    (\<exists>i. - 2 \<le> fl (fl (math_random h i - 1 / 2) * 4) \<and> fl (fl (math_random h i - 1 / 2) * 4) \<le> 2 \<and>
      confidence (predictions (generate h stationsData) ! (20 * k + nat (day * 4 + hour div 6))) =
        Number_toFixed (max 75 (min 98
          (fl (95 - real_of_int day * 3 + fl (fl (math_random h i - 1 / 2) * 4))))) 2 \<and>
      \<bar>fl (95 - real_of_int day * 3 + fl (fl (math_random h i - 1 / 2) * 4))
        - (95 - 3 * real_of_int day + (math_random h i - 1 / 2) * 4)\<bar> \<le> 1 / 10 ^ 9 \<and>
      - 2 \<le> (math_random h i - 1 / 2) * 4 \<and> (math_random h i - 1 / 2) * 4 < 2 \<and>
      \<bar>confidence (predictions (generate h stationsData) ! (20 * k + nat (day * 4 + hour div 6)))
        - max 75 (min 98 (95 - 3 * real_of_int day + (math_random h i - 1 / 2) * 4))\<bar>
        \<le> 1 / 200 + 1 / 10 ^ 9) \<and>
    ((\<forall>i. math_random h i = 1 / 2) \<longrightarrow>
      confidence (predictions (generate h stationsData) ! (20 * k + nat (day * 4 + hour div 6)))
        = 95 - 3 * real_of_int day \<and>
      confidence (predictions (generate h stationsData) ! (20 * k + nat (day' * 4 + hour' div 6)))
        \<le> confidence (predictions (generate h stationsData) ! (20 * k + nat (day * 4 + hour div 6))))"
proof -
  from generate_confidence [OF assms(2-4), of h] obtain i where
    c: "confidence (predictions (generate h stationsData) ! (20 * k + nat (day * 4 + hour div 6))) =
     Number_toFixed (max 75 (min 98 (fl (95 - real_of_int day * 3
       + fl (fl (math_random h i - 1 / 2) * 4))))) 2"
    by blast
  define r where "r = math_random h i"
  define conf where "conf = fl (95 - real_of_int day * 3 + fl (fl (r - 1 / 2) * 4))"
  define x where "x = 95 - 3 * real_of_int day + (r - 1 / 2) * 4"
  define stored where "stored = Number_toFixed (max 75 (min 98 conf)) 2"
  have r: "0 \<le> r" "r < 1" using assms(1) by (simp_all add: r_def)
  have d: "0 \<le> day" "day \<le> 4" using assms(3) by auto
  have n: "- 2 \<le> fl (fl (r - 1 / 2) * 4)" "fl (fl (r - 1 / 2) * 4) \<le> 2"
    using noise_double(3) [OF r] by linarith+
  have e: "\<bar>conf - x\<bar> \<le> 1 / 10 ^ 9"
    and lo: "93 - 3 * real_of_int day \<le> conf" and hi: "conf \<le> 97 - 3 * real_of_int day"
    unfolding conf_def x_def using confidence_double [OF assms(3) r] by simp_all
  have cl: "max 75 (min 98 conf) = conf" using lo hi d by simp
  have "real_of_int (93 - 3 * day) \<le> Number_toFixed conf 2
      \<and> Number_toFixed conf 2 \<le> real_of_int (97 - 3 * day)"
    using lo hi d
    by (intro Number_toFixed_between [where k = "100 * (93 - 3 * day)" and l = "100 * (97 - 3 * day)"])
      simp_all
  then have st: "93 - 3 * real_of_int day \<le> stored" "stored \<le> 97 - 3 * real_of_int day"
    unfolding stored_def cl by simp_all
  have s: "confidence (predictions (generate h stationsData) ! (20 * k + nat (day * 4 + hour div 6)))
      = stored"
    unfolding c stored_def conf_def r_def ..
  have 1: "\<exists>u. - 2 \<le> u \<and> u \<le> 2 \<and> stored = max 75 (min 98 (95 - 3 * real_of_int day + u))"
    using st d by (intro exI [of _ "stored - (95 - 3 * real_of_int day)"]) simp
  have "\<bar>stored - max 75 (min 98 conf)\<bar> \<le> 1 / 200"
    unfolding stored_def by (rule Number_toFixed_near)
  moreover have "\<bar>max 75 (min 98 conf) - max 75 (min 98 x)\<bar> \<le> 1 / 10 ^ 9"
    using e by (rule clamp_near)
  ultimately have near: "\<bar>stored - max 75 (min 98 x)\<bar> \<le> 1 / 200 + 1 / 10 ^ 9" by linarith
  have 2: "\<exists>i. - 2 \<le> fl (fl (math_random h i - 1 / 2) * 4) \<and> fl (fl (math_random h i - 1 / 2) * 4) \<le> 2 \<and>
      stored = Number_toFixed (max 75 (min 98
          (fl (95 - real_of_int day * 3 + fl (fl (math_random h i - 1 / 2) * 4))))) 2 \<and>
      \<bar>fl (95 - real_of_int day * 3 + fl (fl (math_random h i - 1 / 2) * 4))
        - (95 - 3 * real_of_int day + (math_random h i - 1 / 2) * 4)\<bar> \<le> 1 / 10 ^ 9 \<and>
      - 2 \<le> (math_random h i - 1 / 2) * 4 \<and> (math_random h i - 1 / 2) * 4 < 2 \<and>
      \<bar>stored - max 75 (min 98 (95 - 3 * real_of_int day + (math_random h i - 1 / 2) * 4))\<bar>
        \<le> 1 / 200 + 1 / 10 ^ 9"
    using n noise_range(3,4) [OF r] e near
    unfolding stored_def conf_def x_def r_def
    by - (intro exI [of _ i] conjI; (assumption | rule refl))
  have 3: "(\<forall>i. math_random h i = 1 / 2) \<longrightarrow>
      confidence (predictions (generate h stationsData) ! (20 * k + nat (day * 4 + hour div 6)))
        = 95 - 3 * real_of_int day \<and>
      confidence (predictions (generate h stationsData) ! (20 * k + nat (day' * 4 + hour' div 6)))
        \<le> confidence (predictions (generate h stationsData) ! (20 * k + nat (day * 4 + hour div 6)))"
  proof
    assume z: "\<forall>i. math_random h i = 1 / 2"
    from generate_confidence [OF assms(2-4), of h] z
    have a: "confidence (predictions (generate h stationsData) ! (20 * k + nat (day * 4 + hour div 6)))
        = 95 - 3 * real_of_int day"
      by (simp only: confidence_no_noise [OF assms(3)]) simp
    from generate_confidence [OF assms(2) assms(5,6), of h] z
    have b: "confidence (predictions (generate h stationsData) ! (20 * k + nat (day' * 4 + hour' div 6)))
        = 95 - 3 * real_of_int day'"
      by (simp only: confidence_no_noise [OF assms(5)]) simp
    show "confidence (predictions (generate h stationsData) ! (20 * k + nat (day * 4 + hour div 6)))
        = 95 - 3 * real_of_int day \<and>
      confidence (predictions (generate h stationsData) ! (20 * k + nat (day' * 4 + hour' div 6)))
        \<le> confidence (predictions (generate h stationsData) ! (20 * k + nat (day * 4 + hour div 6)))"
      unfolding a b using assms(7) by simp
  qed
  show ?thesis using 1 2 3 unfolding s by (intro conjI)
qed

theorem prediction_confidence_witness:
  "confidence (predictions (generate (steady_host (5629499534214 / 4503599627370496) 0) [pune_station]) ! 0) = 93 \<and>
   confidence (predictions (generate (steady_host (1 / 2) 0) [pune_station]) ! 0) = 95 \<and>
   confidence (predictions (generate (steady_host (1 / 2) 0) [pune_station]) ! 16) = 83"
proof -
  define c :: real where "c = 5629499534214 / 4503599627370496"
  have c01: "\<forall>i. 0 \<le> math_random (steady_host c 0) i \<and> math_random (steady_host c 0) i < 1"
    by (simp add: steady_host_def c_def)
  from prediction_confidence [OF c01, of 0 "[pune_station]" 0 0 0 0]
  have "confidence (predictions (generate (steady_host c 0) [pune_station]) ! 0)
     = Number_toFixed (max 75 (min 98 (fl (95 - real_of_int 0 * 3 + fl (fl (c - 1 / 2) * 4))))) 2"
    by (auto simp add: steady_host_def)
  then have 1: "confidence (predictions (generate (steady_host (5629499534214 / 4503599627370496) 0) [pune_station]) ! 0) = 93"
    unfolding c_def draw_conf draw_conf_stored .
  have h: "\<forall>i. 0 \<le> math_random (steady_host (1 / 2) 0) i \<and> math_random (steady_host (1 / 2) 0) i < 1"
    by (simp add: steady_host_def)
  from prediction_confidence [OF h, of 0 "[pune_station]" 0 0 4 0]
    prediction_confidence [OF h, of 0 "[pune_station]" 4 0 4 0]
  have "confidence (predictions (generate (steady_host (1 / 2) 0) [pune_station]) ! 0) = 95 \<and>
   confidence (predictions (generate (steady_host (1 / 2) 0) [pune_station]) ! 16) = 83"
    by (simp add: steady_host_def)
  with 1 show ?thesis by simp
qed

text \<open>
  C10. The predicted temperature has no random term. For the station at position
  \<open>k\<close>, every prediction day of 0..4 and every hour of 0, 6, 12, 18, the row holds
  \<open>baseTemp + sin (2 * pi * (hour - 6) / 24) * tempRange + 0.5 * day\<close> exactly (for the
  profiles of the table, that value has at most one decimal, the double operations are
  off it by less than \<open>10\<^sup>-\<^sup>9\<close> and \<^verbatim>\<open>toFixed(2)\<close> gives it back), and two runs
  over the same stations, with any two hosts, agree on the predicted temperatures of
  all rows, position by position.
\<close>

theorem predicted_temp_deterministic:
  "(k < length stationsData \<and> day \<in> {0, 1, 2, 3, 4} \<and> hour \<in> {0, 6, 12, 18} \<longrightarrow>
      predicted_temp (predictions (generate h stationsData) ! (20 * k + nat (day * 4 + hour div 6))) =
        baseTemp (profile_of (station_name (stationsData ! k)))
        + sin (2 * pi * (real_of_int hour - 6) / 24) * tempRange (profile_of (station_name (stationsData ! k)))
        + (1 / 2) * real_of_int day) \<and>
   map predicted_temp (predictions (generate h stationsData))
     = map predicted_temp (predictions (generate h' stationsData))"
proof (rule conjI)
  show "k < length stationsData \<and> day \<in> {0, 1, 2, 3, 4} \<and> hour \<in> {0, 6, 12, 18} \<longrightarrow>
      predicted_temp (predictions (generate h stationsData) ! (20 * k + nat (day * 4 + hour div 6))) =
        baseTemp (profile_of (station_name (stationsData ! k)))
        + sin (2 * pi * (real_of_int hour - 6) / 24) * tempRange (profile_of (station_name (stationsData ! k)))
        + (1 / 2) * real_of_int day"
  proof
    assume a: "k < length stationsData \<and> day \<in> {0, 1, 2, 3, 4} \<and> hour \<in> {0, 6, 12, 18}"
    then obtain w where
      "predictions (generate h stationsData) ! (20 * k + nat (day * 4 + hour div 6)) =
       fst (prediction_row h (profile_of (station_name (stationsData ! k)))
         (station_id (stationsData ! k)) day hour w)"
      using generate_prediction_row [of k stationsData day hour h] by blast
    then show "predicted_temp (predictions (generate h stationsData) ! (20 * k + nat (day * 4 + hour div 6))) =
        baseTemp (profile_of (station_name (stationsData ! k)))
        + sin (2 * pi * (real_of_int hour - 6) / 24) * tempRange (profile_of (station_name (stationsData ! k)))
        + (1 / 2) * real_of_int day"
      using a by (simp only: prediction_row_temp predicted_temp_exact)
  qed
next
  let ?s = "\<lparr>weatherData = [], predictions = [], alerts = [],
        host_state = \<lparr>random_calls = 0, now_calls = 0\<rparr>\<rparr>"
  have row: "predicted_temp (predictions (generate g stationsData) ! n) =
      Number_toFixed (fl (fl (baseTemp (profile_of (station_name (stationsData ! (n div 20))))
          + fl (hourFactor (snd (pred_slots ! (n mod 20)))
              * tempRange (profile_of (station_name (stationsData ! (n div 20))))))
        + fl (real_of_int (fst (pred_slots ! (n mod 20))) * (1 / 2)))) 2"
    if "n < 20 * length stationsData" for g n
  proof -
    have k: "n div 20 < length stationsData" using that by (simp add: div_less_iff_less_mult)
    have i: "n mod 20 < 20" by simp
    have n: "20 * (n div 20) + n mod 20 = n" by simp
    from station_loop_predictions_nth [OF k i, of g ?s] obtain w where
      "predictions (generate g stationsData) ! n =
        fst (prediction_row g (profile_of (station_name (stationsData ! (n div 20))))
          (station_id (stationsData ! (n div 20)))
          (fst (pred_slots ! (n mod 20))) (snd (pred_slots ! (n mod 20))) w)"
      by (auto simp: generate_def n)
    then show ?thesis by (simp only: prediction_row_temp)
  qed
  show "map predicted_temp (predictions (generate h stationsData))
     = map predicted_temp (predictions (generate h' stationsData))"
  proof (rule nth_equalityI)
    show "length (map predicted_temp (predictions (generate h stationsData))) =
        length (map predicted_temp (predictions (generate h' stationsData)))"
      by (simp add: generate_predictions_length)
  next
    fix n assume "n < length (map predicted_temp (predictions (generate h stationsData)))"
    then have n: "n < 20 * length stationsData" by (simp add: generate_predictions_length)
    from row [OF n, of h] row [OF n, of h']
    show "map predicted_temp (predictions (generate h stationsData)) ! n =
        map predicted_temp (predictions (generate h' stationsData)) ! n"
      using n by (simp add: generate_predictions_length)
  qed
qed

theorem predicted_temp_deterministic_witness:
  "predicted_temp (predictions (generate (steady_host (1 / 2) 0) [pune_station]) ! 6) = 71 / 2"
proof -
  have p: "profile_of (station_name pune_station) = Pune"
    by (simp add: profile_of_def climateProfiles_def pune_station_def)
  have "2 * pi * (real_of_int 12 - 6) / 24 = pi / 2" by simp
  then have s: "sin (2 * pi * (real_of_int 12 - 6) / 24) = 1" by (simp only: sin_pi_half)
  from predicted_temp_deterministic [of 0 "[pune_station]" 1 12 "steady_host (1 / 2) 0"]
  have "predicted_temp (predictions (generate (steady_host (1 / 2) 0) [pune_station]) ! 6) =
      baseTemp Pune + sin (2 * pi * (real_of_int 12 - 6) / 24) * tempRange Pune + 1 / 2 * real_of_int 1"
    by (simp add: p)
  then show ?thesis unfolding s by (simp add: Pune_def)
qed
lemma alert_types [simp]:
  "alert_type (heat_wave_warning p sid) = ''Heat Wave Warning''"
  "alert_type (heavy_rainfall_alert sid) = ''Heavy Rainfall Alert''"
  "alert_type (strong_wind_advisory h p sid) = ''Strong Wind Advisory''"
  "alert_type (high_humidity_alert h p sid) = ''High Humidity Alert''"
  by (simp_all add: heat_wave_warning_def heavy_rainfall_alert_def strong_wind_advisory_def
      high_humidity_alert_def Let_def)

lemma station_alerts_append:
  "fst (station_alerts h p sid (al, w)) = al @ fst (station_alerts h p sid ([], w))"
  by (simp add: station_alerts_def Let_def split_def)

lemma station_alerts_heat:
  "(\<exists>a\<in>set (fst (station_alerts h p sid ([], w))). alert_type a = ''Heat Wave Warning'')
     = (baseTemp p > 38)"
  by (simp add: station_alerts_def Let_def split_def)

lemma station_alerts_heat_fields:
  assumes "a \<in> set (fst (station_alerts h p sid ([], w)))" "alert_type a = ''Heat Wave Warning''"
  shows "a = heat_wave_warning p sid"
  using assms by (auto simp: station_alerts_def Let_def split_def split: if_splits)

text \<open>
  C1. The alerts of a station that the loop processes are those of the alert block, run
  with the profile of the station. In the alert block of a station with profile \<open>p\<close>,
  the alerts pushed are appended to the ones already there. A heat-wave alert is among
  them if and only if \<open>baseTemp p > 38\<close>; its severity is \<open>extreme\<close> if and only if
  \<open>baseTemp p > 42\<close> and \<open>high\<close> otherwise; its message holds \<open>baseTemp p + 3\<close>,
  printed with one decimal by \<^verbatim>\<open>toFixed(1)\<close>, as the temperature that may be reached.
  The sum is the one of the doubles; for a whole base temperature, as all of the table
  are, it is the sum of the numbers.
\<close>

theorem heat_wave_alert:
  "(\<exists>w'. alerts (process_station h st s) =
      fst (station_alerts h (profile_of (station_name st)) (station_id st) (alerts s, w'))) \<and>
   take (length al) (fst (station_alerts h p sid (al, w))) = al \<and>
   (\<exists>a\<in>set (drop (length al) (fst (station_alerts h p sid (al, w)))).
       alert_type a = ''Heat Wave Warning'') = (baseTemp p > 38) \<and>
   (\<forall>a\<in>set (drop (length al) (fst (station_alerts h p sid (al, w)))).
       alert_type a = ''Heat Wave Warning'' \<longrightarrow>
         (severity a = ''extreme'') = (baseTemp p > 42) \<and>
         (severity a = ''high'') = (\<not> baseTemp p > 42) \<and>
         message a = ''Heat wave conditions expected. Temperature may reach ''
           @ toFixed (fl (baseTemp p + 3)) 1 @ [CHR 0xC2, CHR 0xB0]
           @ ''C. Stay hydrated and avoid direct sunlight.'' \<and>
         alert_station_id a = sid \<and> is_active a) \<and>
   (\<forall>n :: int. baseTemp p = real_of_int n \<and> \<bar>n\<bar> \<le> 2045 \<longrightarrow>
       fl (baseTemp p + 3) = baseTemp p + 3)"
proof -
  have d: "drop (length al) (fst (station_alerts h p sid (al, w))) = fst (station_alerts h p sid ([], w))"
    by (subst station_alerts_append) simp
  have t: "take (length al) (fst (station_alerts h p sid (al, w))) = al"
    by (subst station_alerts_append) simp
  have f: "(severity a = ''extreme'') = (baseTemp p > 42) \<and>
         (severity a = ''high'') = (\<not> baseTemp p > 42) \<and>
         message a = ''Heat wave conditions expected. Temperature may reach ''
           @ toFixed (fl (baseTemp p + 3)) 1 @ [CHR 0xC2, CHR 0xB0]
           @ ''C. Stay hydrated and avoid direct sunlight.'' \<and>
         alert_station_id a = sid \<and> is_active a"
    if "a \<in> set (fst (station_alerts h p sid ([], w)))" "alert_type a = ''Heat Wave Warning''" for a
    unfolding station_alerts_heat_fields [OF that] by (simp add: heat_wave_warning_def Let_def)
  have g: "fl (baseTemp p + 3) = baseTemp p + 3" if "baseTemp p = real_of_int n \<and> \<bar>n\<bar> \<le> 2045" for n :: int
  proof -
    have "fl (real_of_int (n + 3)) = real_of_int (n + 3)" using that by (intro fl_of_int) linarith
    then show ?thesis using that by simp
  qed
  show ?thesis
    unfolding d t using station_alerts_heat [of h p sid w] f process_station_alerts [of h st s] g
    by blast
qed

lemma decimal_430: "decimal 430 = ''430''"
  by (simp add: decimal.simps digit_char_def)

lemma decimal_480: "decimal 480 = ''480''"
  by (simp add: decimal.simps digit_char_def)

lemma toFixed_43: "toFixed 43 1 = ''43.0''"
  by (simp add: toFixed_def toFixed_scaled_def decimal_430 Let_def)

lemma toFixed_48: "toFixed 48 1 = ''48.0''"
  by (simp add: toFixed_def toFixed_scaled_def decimal_480 Let_def)

lemma rain_thresholds:
  "fl (22 / 100) < fl (25 / 100)" "\<not> fl (22 / 100) < fl (15 / 100)" "\<not> fl (22 / 100) < fl (5 / 100)"
  using fl_bounds [of "22 / 100"] fl_bounds [of "25 / 100"] fl_bounds [of "15 / 100"]
    fl_bounds [of "5 / 100"]
  by simp_all

lemma fl_43: "fl 43 = 43" "fl 48 = 48"
  using fl_of_int [of 43] fl_of_int [of 48] by simp_all

lemma hot_alerts:
  "fst (station_alerts h (hot_profile t) sid ([], w)) =
     (if t > 38 then [heat_wave_warning (hot_profile t) sid] else [])"
  using rain_thresholds by (simp add: station_alerts_def hot_profile_def Let_def split_def)

theorem heat_wave_alert_witness:
  "map severity (fst (station_alerts (steady_host (1 / 2) 0) (hot_profile 40) ''s1''
      ([], \<lparr>random_calls = 0, now_calls = 0\<rparr>))) = [''high''] \<and>
   map message (fst (station_alerts (steady_host (1 / 2) 0) (hot_profile 40) ''s1''
      ([], \<lparr>random_calls = 0, now_calls = 0\<rparr>))) =
     [''Heat wave conditions expected. Temperature may reach 43.0'' @ [CHR 0xC2, CHR 0xB0]
        @ ''C. Stay hydrated and avoid direct sunlight.''] \<and>
   map severity (fst (station_alerts (steady_host (1 / 2) 0) (hot_profile 45) ''s1''
      ([], \<lparr>random_calls = 0, now_calls = 0\<rparr>))) = [''extreme''] \<and>
   map message (fst (station_alerts (steady_host (1 / 2) 0) (hot_profile 45) ''s1''
      ([], \<lparr>random_calls = 0, now_calls = 0\<rparr>))) =
     [''Heat wave conditions expected. Temperature may reach 48.0'' @ [CHR 0xC2, CHR 0xB0]
        @ ''C. Stay hydrated and avoid direct sunlight.''] \<and>
   fst (station_alerts (steady_host (1 / 2) 0) (hot_profile 38) ''s1''
      ([], \<lparr>random_calls = 0, now_calls = 0\<rparr>)) = []"
proof -
  let ?w = "\<lparr>random_calls = 0, now_calls = 0\<rparr>"
  let ?h = "steady_host (1 / 2) 0"
  define a where "a = heat_wave_warning (hot_profile 40) ''s1''"
  define b where "b = heat_wave_warning (hot_profile 45) ''s1''"
  have a: "fst (station_alerts ?h (hot_profile 40) ''s1'' ([], ?w)) = [a]"
    by (simp add: hot_alerts a_def)
  have b: "fst (station_alerts ?h (hot_profile 45) ''s1'' ([], ?w)) = [b]"
    by (simp add: hot_alerts b_def)
  have c: "fst (station_alerts ?h (hot_profile 38) ''s1'' ([], ?w)) = []"
    by (simp add: hot_alerts)
  have ta: "alert_type a = ''Heat Wave Warning''" by (simp add: a_def)
  have tb: "alert_type b = ''Heat Wave Warning''" by (simp add: b_def)
  have ba: "baseTemp (hot_profile 40) = 40" "baseTemp (hot_profile 45) = 45"
    by (simp_all add: hot_profile_def)
  from heat_wave_alert [of ?h st s "[]" "hot_profile 40" "''s1''" ?w]
  have "severity a = ''high'' \<and> message a = ''Heat wave conditions expected. Temperature may reach 43.0'' @ [CHR 0xC2, CHR 0xB0]
        @ ''C. Stay hydrated and avoid direct sunlight.''"
    unfolding a ba using ta toFixed_43 fl_43 by simp
  moreover from heat_wave_alert [of ?h st s "[]" "hot_profile 45" "''s1''" ?w]
  have "severity b = ''extreme'' \<and> message b = ''Heat wave conditions expected. Temperature may reach 48.0'' @ [CHR 0xC2, CHR 0xB0]
        @ ''C. Stay hydrated and avoid direct sunlight.''"
    unfolding b ba using tb toFixed_48 fl_43 by simp
  ultimately show ?thesis
    unfolding a b c by simp
qed
lemma station_loop_alerts_set:
  "a \<in> set (alerts (station_loop h sd s)) \<Longrightarrow>
     a \<in> set (alerts s) \<or>
     (\<exists>st\<in>set sd. \<exists>w. a \<in> set (fst (station_alerts h (profile_of (station_name st)) (station_id st) ([], w))))"
proof (induction sd arbitrary: s)
  case Nil
  then show ?case by simp
next
  case (Cons st sd)
  from process_station_alerts [of h st s] obtain w where
    al: "alerts (process_station h st s) =
      alerts s @ fst (station_alerts h (profile_of (station_name st)) (station_id st) ([], w))"
    using station_alerts_append by metis
  from Cons.IH [of "process_station h st s"] Cons.prems
  consider "a \<in> set (alerts (process_station h st s))"
    | "\<exists>st\<in>set sd. \<exists>w. a \<in> set (fst (station_alerts h (profile_of (station_name st)) (station_id st) ([], w)))"
    by auto
  then show ?case
  proof cases
    case 1
    then show ?thesis unfolding al by auto
  next
    case 2
    then show ?thesis by auto
  qed
qed

lemma profile_of_baseTemp: "baseTemp (profile_of name) \<le> 32"
  using profile_of_cases [of name]
  by (auto simp: Mumbai_def Pune_def Alandi_def Sangamner_def Nagpur_def)

text \<open>
  C9. Every profile of the table has a base temperature of at most 32, the one of
  Nagpur; so has the profile of any station name, since an unknown name gets the
  profile of Pune. No run, over any stations, produces a heat-wave alert.
\<close>

theorem no_heat_wave_alert:
  "(\<forall>np\<in>set climateProfiles. baseTemp (snd np) \<le> 32) \<and>
   (''Nagpur'', Nagpur) \<in> set climateProfiles \<and> baseTemp Nagpur = 32 \<and>
   (\<forall>name. baseTemp (profile_of name) \<le> 32) \<and>
   (\<forall>a\<in>set (alerts (generate h stationsData)). alert_type a \<noteq> ''Heat Wave Warning'')"
proof (intro conjI)
  show "\<forall>np\<in>set climateProfiles. baseTemp (snd np) \<le> 32"
    by (simp add: climateProfiles_def Mumbai_def Pune_def Alandi_def Sangamner_def Nagpur_def)
  show "(''Nagpur'', Nagpur) \<in> set climateProfiles" by (simp add: climateProfiles_def)
  show "baseTemp Nagpur = 32" by (simp add: Nagpur_def)
  show "\<forall>name. baseTemp (profile_of name) \<le> 32" by (simp add: profile_of_baseTemp)
  show "\<forall>a\<in>set (alerts (generate h stationsData)). alert_type a \<noteq> ''Heat Wave Warning''"
  proof
    fix a assume "a \<in> set (alerts (generate h stationsData))"
    then have "a \<in> set (alerts (station_loop h stationsData
        \<lparr>weatherData = [], predictions = [], alerts = [],
         host_state = \<lparr>random_calls = 0, now_calls = 0\<rparr>\<rparr>))"
      by (simp add: generate_def)
    from station_loop_alerts_set [OF this] obtain st :: station and w where
      a: "a \<in> set (fst (station_alerts h (profile_of (station_name st)) (station_id st) ([], w)))"
      by auto
    show "alert_type a \<noteq> ''Heat Wave Warning''"
    proof
      assume "alert_type a = ''Heat Wave Warning''"
      with a station_alerts_heat [of h "profile_of (station_name st)" "station_id st" w]
      have "baseTemp (profile_of (station_name st)) > 38" by blast
      then show False using profile_of_baseTemp [of "station_name st"] by simp
    qed
  qed
qed

lemma mumbai_alerts:
  "fst (station_alerts (steady_host (1 / 2) t) Mumbai sid ([], w)) =
     [heavy_rainfall_alert sid, strong_wind_advisory (steady_host (1 / 2) t) Mumbai sid]"
  using rain_thresholds
  by (simp add: station_alerts_def Mumbai_def Math_random_def steady_host_def Let_def split_def)

theorem no_heat_wave_alert_witness:
  "map alert_type (alerts (generate (steady_host (1 / 2) 0) [mumbai_station, delhi_station])) =
     [''Heavy Rainfall Alert'', ''Strong Wind Advisory''] \<and>
   alert_type (alerts (generate (steady_host (1 / 2) 0) [mumbai_station, delhi_station]) ! 0)
     \<noteq> ''Heat Wave Warning'' \<and>
   baseTemp (profile_of ''Delhi'') = 28"
proof -
  let ?h = "steady_host (1 / 2) 0"
  let ?s = "\<lparr>weatherData = [], predictions = [], alerts = [],
         host_state = \<lparr>random_calls = 0, now_calls = 0\<rparr>\<rparr>"
  have pm: "profile_of (station_name mumbai_station) = Mumbai"
    by (simp add: profile_of_def climateProfiles_def mumbai_station_def)
  have pd: "profile_of (station_name delhi_station) = Pune" "profile_of ''Delhi'' = Pune"
    by (simp_all add: profile_of_def climateProfiles_def delhi_station_def)
  have pune: "fst (station_alerts ?h Pune sid (al, w)) = al" for sid al w
    using rain_thresholds by (simp add: station_alerts_def Pune_def Let_def split_def)
  from process_station_alerts [of ?h mumbai_station ?s]
  have 1: "alerts (process_station ?h mumbai_station ?s) =
      [heavy_rainfall_alert (station_id mumbai_station),
       strong_wind_advisory ?h Mumbai (station_id mumbai_station)]"
    by (auto simp: pm mumbai_alerts)
  from process_station_alerts [of ?h delhi_station "process_station ?h mumbai_station ?s"]
  have 2: "alerts (generate ?h [mumbai_station, delhi_station]) =
      [heavy_rainfall_alert (station_id mumbai_station),
       strong_wind_advisory ?h Mumbai (station_id mumbai_station)]"
    by (auto simp: generate_def pd pune 1)
  have "alerts (generate ?h [mumbai_station, delhi_station]) ! 0
      \<in> set (alerts (generate ?h [mumbai_station, delhi_station]))"
    unfolding 2 by simp
  with no_heat_wave_alert [of ?h "[mumbai_station, delhi_station]"]
  have "alert_type (alerts (generate ?h [mumbai_station, delhi_station]) ! 0) \<noteq> ''Heat Wave Warning''"
    by blast
  then show ?thesis
    by (simp add: 2 pd Pune_def)
qed

lemma leading_deletes_clear:
  "leading_deletes (clear_requests @ Insert_stations xs # rest) =
     [Delete_neq_id weather_alerts nil_uuid, Delete_neq_id weather_predictions nil_uuid,
      Delete_neq_id weather_data nil_uuid, Delete_neq_id weather_stations nil_uuid]"
  by (simp add: clear_requests_def)

lemma caught_requests: "requests (caught rs e) = rs"
  by (simp add: caught_def)

lemma insert_all_requests:
  "\<exists>rest. requests (insert_all rp rs n s) = rs @ rest \<and> (\<forall>r\<in>set rest. \<forall>d. r \<noteq> Delete d)"
  by (auto simp: insert_all_def caught_requests Let_def split: option.splits)

lemma seed_operation_requests:
  "\<exists>rest. requests (seed_operation h rp) = clear_requests @ Insert_stations seed_stations # rest
     \<and> (\<forall>r\<in>set rest. \<forall>d. r \<noteq> Delete d)"
proof (cases "reply_error (stations_reply rp)")
  case (Some e)
  then show ?thesis by (simp add: seed_operation_def caught_requests)
next
  case None
  show ?thesis
  proof (cases "reply_data (stations_reply rp)")
    case n: None
    then show ?thesis using None by (simp add: seed_operation_def caught_requests)
  next
    case (Some sd)
    show ?thesis
    proof (cases "list_ex (\<lambda>st. station_name st \<in> set inherited_keys) sd")
      case True
      then show ?thesis using None Some by (simp add: seed_operation_def caught_requests)
    next
      case False
      from insert_all_requests [of rp "clear_requests @ [Insert_stations seed_stations]" "length sd" "generate h sd"]
      show ?thesis using None Some False by (auto simp: seed_operation_def)
    qed
  qed
qed

lemma perform_children:
  assumes "generated_ids db"
  shows "perform_deletes
     [Delete_neq_id weather_alerts nil_uuid, Delete_neq_id weather_predictions nil_uuid,
      Delete_neq_id weather_data nil_uuid] db =
   \<lparr>stations_tbl = stations_tbl db, data_tbl = [], predictions_tbl = [], alerts_tbl = []\<rparr>"
proof -
  have "filter (\<lambda>r. row_id r = nil_uuid) (data_tbl db) = []"
    "filter (\<lambda>r. row_id r = nil_uuid) (predictions_tbl db) = []"
    "filter (\<lambda>r. row_id r = nil_uuid) (alerts_tbl db) = []"
    using assms by (simp_all add: generated_ids_def list_all_iff filter_empty_conv)
  then show ?thesis by simp
qed

lemma perform_clear:
  assumes "generated_ids db"
  shows "perform_deletes
     [Delete_neq_id weather_alerts nil_uuid, Delete_neq_id weather_predictions nil_uuid,
      Delete_neq_id weather_data nil_uuid, Delete_neq_id weather_stations nil_uuid] db =
   \<lparr>stations_tbl = [], data_tbl = [], predictions_tbl = [], alerts_tbl = []\<rparr>"
proof -
  have "filter (\<lambda>r. row_id r = nil_uuid) (data_tbl db) = []"
    "filter (\<lambda>r. row_id r = nil_uuid) (predictions_tbl db) = []"
    "filter (\<lambda>r. row_id r = nil_uuid) (alerts_tbl db) = []"
    "filter (\<lambda>s. station_id s = nil_uuid) (stations_tbl db) = []"
    using assms by (simp_all add: generated_ids_def list_all_iff filter_empty_conv)
  then show ?thesis by (simp add: Let_def cascade_def)
qed

text \<open>
  C8. Every run of the seed operation sends, before any insert, four delete requests:
  for \<^verbatim>\<open>weather_alerts\<close>, \<^verbatim>\<open>weather_predictions\<close>, \<^verbatim>\<open>weather_data\<close> and
  \<^verbatim>\<open>weather_stations\<close>, in this order (the child tables before their parent), each
  for the rows whose id is not the nil UUID. The insert of the stations is the next
  request, and no delete request is sent after it. On tables whose ids the database has
  generated, the first three requests empty the three child tables and the fourth the
  table of the stations: when the stations are inserted no row is left in any of the
  four tables, whatever station it belonged to and whatever the name of that station.
  The handler runs the seed operation on every request but the \<^verbatim>\<open>OPTIONS\<close> preflight,
  which sends nothing.
\<close>

theorem seed_deletes_first:
  assumes "generated_ids db"
  shows "(\<exists>rest. requests (seed_operation h rp) =
        [Delete (Delete_neq_id weather_alerts nil_uuid),
         Delete (Delete_neq_id weather_predictions nil_uuid),
         Delete (Delete_neq_id weather_data nil_uuid),
         Delete (Delete_neq_id weather_stations nil_uuid),
         Insert_stations seed_stations] @ rest \<and>
        (\<forall>r\<in>set rest. \<forall>d. r \<noteq> Delete d)) \<and>
    perform_deletes (take 3 (leading_deletes (requests (seed_operation h rp)))) db =
      \<lparr>stations_tbl = stations_tbl db, data_tbl = [], predictions_tbl = [], alerts_tbl = []\<rparr> \<and>
    perform_deletes (leading_deletes (requests (seed_operation h rp))) db =
      \<lparr>stations_tbl = [], data_tbl = [], predictions_tbl = [], alerts_tbl = []\<rparr> \<and>
    requests (seed_handler h rp method) =
      (if method = ''OPTIONS'' then [] else requests (seed_operation h rp))"
proof -
  from seed_operation_requests [of h rp] obtain rest where
    rq: "requests (seed_operation h rp) = clear_requests @ Insert_stations seed_stations # rest"
    and nd: "\<forall>r\<in>set rest. \<forall>d. r \<noteq> Delete d"
    by blast
  have ld: "leading_deletes (requests (seed_operation h rp)) =
     [Delete_neq_id weather_alerts nil_uuid, Delete_neq_id weather_predictions nil_uuid,
      Delete_neq_id weather_data nil_uuid, Delete_neq_id weather_stations nil_uuid]"
    unfolding rq by (rule leading_deletes_clear)
  have 1: "\<exists>rest. requests (seed_operation h rp) =
        [Delete (Delete_neq_id weather_alerts nil_uuid),
         Delete (Delete_neq_id weather_predictions nil_uuid),
         Delete (Delete_neq_id weather_data nil_uuid),
         Delete (Delete_neq_id weather_stations nil_uuid),
         Insert_stations seed_stations] @ rest \<and>
        (\<forall>r\<in>set rest. \<forall>d. r \<noteq> Delete d)"
    using nd by (intro exI [of _ rest]) (simp add: rq clear_requests_def)
  have 2: "perform_deletes (take 3 (leading_deletes (requests (seed_operation h rp)))) db =
      \<lparr>stations_tbl = stations_tbl db, data_tbl = [], predictions_tbl = [], alerts_tbl = []\<rparr>"
    unfolding ld using perform_children [OF assms] by (simp add: numeral_3_eq_3)
  have 3: "perform_deletes (leading_deletes (requests (seed_operation h rp))) db =
      \<lparr>stations_tbl = [], data_tbl = [], predictions_tbl = [], alerts_tbl = []\<rparr>"
    unfolding ld by (rule perform_clear [OF assms])
  have 4: "requests (seed_handler h rp method) =
      (if method = ''OPTIONS'' then [] else requests (seed_operation h rp))"
    by (simp add: seed_handler_def)
  show ?thesis using 1 2 3 4 by (intro conjI)
qed

theorem seed_deletes_first_witness:
  "generated_ids
     \<lparr>stations_tbl = [pune_station, delhi_station],
      data_tbl = [\<lparr>row_id = ''6f1c2a90-0000-4000-8000-0000000000d1'',
        row_station_id = station_id delhi_station\<rparr>],
      predictions_tbl = [\<lparr>row_id = ''6f1c2a90-0000-4000-8000-0000000000f1'',
        row_station_id = station_id pune_station\<rparr>],
      alerts_tbl = []\<rparr> \<and>
   perform_deletes (leading_deletes (requests
      (seed_operation (steady_host (1 / 2) 0) (ok_replies [pune_station]))))
     \<lparr>stations_tbl = [pune_station, delhi_station],
      data_tbl = [\<lparr>row_id = ''6f1c2a90-0000-4000-8000-0000000000d1'',
        row_station_id = station_id delhi_station\<rparr>],
      predictions_tbl = [\<lparr>row_id = ''6f1c2a90-0000-4000-8000-0000000000f1'',
        row_station_id = station_id pune_station\<rparr>],
      alerts_tbl = []\<rparr>
    = \<lparr>stations_tbl = [], data_tbl = [], predictions_tbl = [], alerts_tbl = []\<rparr> \<and>
   requests (seed_handler (steady_host (1 / 2) 0) (ok_replies [pune_station]) ''POST'') =
     requests (seed_operation (steady_host (1 / 2) 0) (ok_replies [pune_station]))"
proof -
  let ?db = "\<lparr>stations_tbl = [pune_station, delhi_station],
      data_tbl = [\<lparr>row_id = ''6f1c2a90-0000-4000-8000-0000000000d1'',
        row_station_id = station_id delhi_station\<rparr>],
      predictions_tbl = [\<lparr>row_id = ''6f1c2a90-0000-4000-8000-0000000000f1'',
        row_station_id = station_id pune_station\<rparr>],
      alerts_tbl = []\<rparr>"
  have g: "generated_ids ?db"
    by (simp add: generated_ids_def pune_station_def delhi_station_def nil_uuid_def)
  from seed_deletes_first [OF g, of "steady_host (1 / 2) 0" "ok_replies [pune_station]" "''POST''"]
  show ?thesis using g by simp
qed

text \<open>
  C7. When its query fails, \<^verbatim>\<open>loadStations\<close> logs the error, shows a toast and
  leaves the stations and the selected station as they were. \<^verbatim>\<open>loadCurrentWeather\<close>
  logs the error and leaves the current weather as it was, but shows no toast: its
  \<^verbatim>\<open>catch\<close> block has no call of \<^verbatim>\<open>toast.error\<close>.
\<close>

theorem fetch_failures:
  "stations (loadStations \<lparr>reply_data = dat, reply_error = Some e\<rparr> d) = stations d \<and>
   selectedStation (loadStations \<lparr>reply_data = dat, reply_error = Some e\<rparr> d) = selectedStation d \<and>
   console_errors (loadStations \<lparr>reply_data = dat, reply_error = Some e\<rparr> d)
     = console_errors d @ [(''Error loading stations:'', e)] \<and>
   toasts (loadStations \<lparr>reply_data = dat, reply_error = Some e\<rparr> d)
     = toasts d @ [''Failed to load weather stations''] \<and>
   currentWeather (loadCurrentWeather \<lparr>reply_data = dat', reply_error = Some e\<rparr> d) = currentWeather d \<and>
   console_errors (loadCurrentWeather \<lparr>reply_data = dat', reply_error = Some e\<rparr> d)
     = console_errors d @ [(''Error loading current weather:'', e)] \<and>
   toasts (loadCurrentWeather \<lparr>reply_data = dat', reply_error = Some e\<rparr> d) = toasts d"
  by (simp add: loadStations_def loadCurrentWeather_def)

end
